theory Spec2Isabelle
  imports Main "HOL-Library.Word"
begin

section \<open>Data model\<close>

text \<open>
  \<^verbatim>\<open>type AlbumItem struct\<close> of \<^verbatim>\<open>server.go\<close>. The field \<^verbatim>\<open>ID\<close> has the Go type
  \<^verbatim>\<open>interface{}\<close>: it holds whatever value the JSON decoder produced, so the record is
  polymorphic in the type of identifiers.
\<close>

record 'id AlbumItem =
  ID :: 'id
  URL :: string
  Description :: string
  Credits :: string

text \<open>
  The content of a file, classified by what \<^verbatim>\<open>encoding/json\<close> makes of it.
  \<open>Items xs\<close> is the JSON array that \<^verbatim>\<open>json.Marshal\<close> writes for the slice \<open>xs\<close>,
  \<open>Item x\<close> the JSON object written for one item, \<open>Null\<close> the text \<^verbatim>\<open>null\<close>, and
  \<open>Garbage\<close> any other bytes (empty or truncated files included).
\<close>

datatype 'id document = Items "'id AlbumItem list" | Item "'id AlbumItem" | Null | Garbage

text \<open>A path of the local file system: no file, a file that cannot be read, or a file.\<close>

datatype 'id local_file = Missing | Unreadable | Present "'id document"

text \<open>
  The three stores the publish cycle touches: \<^verbatim>\<open>data/album.json\<close> (the Queue),
  \<^verbatim>\<open>data/archive.json\<close> (the Archive) and the remote \<^verbatim>\<open>today.json\<close> (the pointer;
  \<open>None\<close> while the remote file does not exist).
\<close>

record 'id world =
  album_json :: "'id local_file"
  archive_json :: "'id local_file"
  today_json :: "'id document option"

datatype read_error = NotExist | ReadFailed

datatype sftp_error =
    EnvNotSet | InvalidPort | ReadKey | ParseKey | Connect | CreateClient
  | SerializeItem | OpenLocal | CreateRemote | WriteRemote

datatype cdn_error = ApiEnvNotSet | CreateRequest | SendRequest | ApiError int

datatype error =
    ErrReadingAlbum | ErrParsingAlbum | NoItemsInAlbum
  | ErrReadingArchive | ErrParsingArchive | NoItemsInArchive
  | ErrUploadingToSFTP sftp_error
  | ErrSerializingArchive | ErrWritingArchive
  | ErrSerializingAlbum | ErrWritingAlbum

datatype log_line =
    LogPublishing | LogUnpublishing | LogUploaded | LogInvalidated
  | LogWarning cdn_error | LogUpdatedToday | LogSuccess

section \<open>The standard library and the outside world\<close>

text \<open>\<^verbatim>\<open>os.ReadFile\<close>: a missing file gives an error that \<^verbatim>\<open>os.IsNotExist\<close> accepts.\<close>

fun ReadFile :: "'id local_file \<Rightarrow> read_error + 'id document" where
  "ReadFile Missing = Inl NotExist"
| "ReadFile Unreadable = Inl ReadFailed"
| "ReadFile (Present d) = Inr d"

text \<open>
  \<^verbatim>\<open>json.Unmarshal(data, &items)\<close> into a nil \<^verbatim>\<open>[]AlbumItem\<close>: an array decodes to its
  items, \<^verbatim>\<open>null\<close> leaves the slice nil (length 0), everything else is an error.
\<close>

fun Unmarshal :: "'id document \<Rightarrow> 'id AlbumItem list option" where
  "Unmarshal (Items xs) = Some xs"
| "Unmarshal Null = Some []"
| "Unmarshal (Item x) = None"
| "Unmarshal Garbage = None"

text \<open>
  \<^verbatim>\<open>json.Marshal\<close> of a slice and of one item. Every slice the two processes marshal is
  non-nil (built by \<^verbatim>\<open>append\<close> or by slicing a non-empty slice), so the output is an
  array, never \<^verbatim>\<open>null\<close>; values that came out of the decoder always encode, so the
  error result is never produced, but the callers keep their error branches.
\<close>

definition Marshal :: "'id AlbumItem list \<Rightarrow> 'id document option" where
  "Marshal xs = Some (Items xs)"

definition MarshalItem :: "'id AlbumItem \<Rightarrow> 'id document option" where
  "MarshalItem x = Some (Item x)"

text \<open>
  What one call of \<^verbatim>\<open>os.WriteFile\<close> does: it opens the file with truncation, writes and
  closes. The call can fail at each of the three steps.
\<close>

datatype write_outcome = Written | OpenFailed | WriteFailed | CloseFailed

fun WriteFile :: "write_outcome \<Rightarrow> 'id document \<Rightarrow> 'id local_file \<Rightarrow> 'id local_file \<times> bool" where
  "WriteFile Written d f = (Present d, True)"
| "WriteFile OpenFailed d f = (f, False)"
| "WriteFile WriteFailed d f = (Present Garbage, False)"
| "WriteFile CloseFailed d f = (Present d, False)"

text \<open>
  The environment variables read by the SFTP functions and the outcome of each call they
  make to the network and the file system. \<^verbatim>\<open>strconv.Atoi\<close> is passed in.
\<close>

record sftp_env =
  SFTP_HOST :: string
  SFTP_PORT :: string
  SFTP_USER :: string
  SFTP_PASSWORD :: string
  SFTP_PRIVATE_KEY_PATH :: string
  Atoi :: "string \<Rightarrow> int option"
  key_read_ok :: bool
  key_parse_ok :: bool
  dial_ok :: bool
  new_client_ok :: bool
  remote_create_ok :: bool
  remote_write_ok :: bool

record cdn_env =
  BUNNY_API_KEY :: string
  BUNNY_CDN_URL :: string
  new_request_ok :: bool
  do_ok :: bool
  status_code :: int

record env =
  sftp :: sftp_env
  cdn :: cdn_env
  write_archive :: write_outcome
  write_album :: write_outcome

section \<open>Remote pointer and cache\<close>

text \<open>
  The part \<^verbatim>\<open>uploadToSFTP\<close> and \<^verbatim>\<open>uploadFileToSFTP\<close> share: environment, port,
  authentication, SSH connection and SFTP client (lines 382 to 443 of \<^verbatim>\<open>server.go\<close>).
\<close>

definition sftp_connect :: "sftp_env \<Rightarrow> sftp_error option" where
  "sftp_connect s =
    (if SFTP_HOST s = [] \<or> SFTP_USER s = [] \<or>
        (SFTP_PASSWORD s = [] \<and> SFTP_PRIVATE_KEY_PATH s = [])
     then Some EnvNotSet
     else if SFTP_PORT s \<noteq> [] \<and> Atoi s (SFTP_PORT s) = None then Some InvalidPort
     else if SFTP_PASSWORD s = [] \<and> SFTP_PRIVATE_KEY_PATH s \<noteq> [] \<and> \<not> key_read_ok s
     then Some ReadKey
     else if SFTP_PASSWORD s = [] \<and> SFTP_PRIVATE_KEY_PATH s \<noteq> [] \<and> \<not> key_parse_ok s
     then Some ParseKey
     else if \<not> dial_ok s then Some Connect
     else if \<not> new_client_ok s then Some CreateClient
     else None)"

text \<open>
  \<^verbatim>\<open>uploadToSFTP(item)\<close>: the new content of the remote \<^verbatim>\<open>today.json\<close>, the lines
  logged and the error. \<^verbatim>\<open>Create\<close> truncates the remote file, so a failing
  \<^verbatim>\<open>Write\<close> leaves it without a decodable item.
\<close>

definition uploadToSFTP ::
  "sftp_env \<Rightarrow> 'id AlbumItem \<Rightarrow> 'id document option
    \<Rightarrow> 'id document option \<times> log_line list \<times> sftp_error option" where
  "uploadToSFTP s item today =
    (case sftp_connect s of
       Some err \<Rightarrow> (today, [], Some err)
     | None \<Rightarrow>
    (case MarshalItem item of
       None \<Rightarrow> (today, [], Some SerializeItem)
     | Some content \<Rightarrow>
       if \<not> remote_create_ok s then (today, [], Some CreateRemote)
       else if \<not> remote_write_ok s then (Some Garbage, [], Some WriteRemote)
       else (Some content, [LogUploaded], None)))"

definition invalidateCache :: "cdn_env \<Rightarrow> log_line list \<times> cdn_error option" where
  "invalidateCache c =
    (if BUNNY_API_KEY c = [] \<or> BUNNY_CDN_URL c = [] then ([], Some ApiEnvNotSet)
     else if \<not> new_request_ok c then ([], Some CreateRequest)
     else if \<not> do_ok c then ([], Some SendRequest)
     else if status_code c < 200 \<or> status_code c \<ge> 300
     then ([], Some (ApiError (status_code c)))
     else ([LogInvalidated], None))"

text \<open>
  The cache step of both processes (lines 88 to 92 of \<^verbatim>\<open>server.go\<close>, 80 to 84 of
  \<^verbatim>\<open>unpublish.go\<close>): an error of \<^verbatim>\<open>invalidateCache\<close> is logged as a warning and
  dropped. The value is what the step logs.
\<close>

definition invalidate_advisory :: "cdn_env \<Rightarrow> log_line list" where
  "invalidate_advisory c =
    (case invalidateCache c of (clog, cerr) \<Rightarrow>
       clog @ (case cerr of None \<Rightarrow> [] | Some ce \<Rightarrow> [LogWarning ce]))"

section \<open>PUBLISH and UNPUBLISH\<close>

text \<open>
  A run of a process: the states of the world after each call that can change it (in
  order), the lines logged, and the error returned (\<open>None\<close> for \<^verbatim>\<open>nil\<close>).
\<close>

type_synonym 'id run = "'id world list \<times> log_line list \<times> error option"

definition trace :: "'id run \<Rightarrow> 'id world list" where
  "trace r = fst r"

definition logged :: "'id run \<Rightarrow> log_line list" where
  "logged r = fst (snd r)"

definition result :: "'id run \<Rightarrow> error option" where
  "result r = snd (snd r)"

definition final :: "'id world \<Rightarrow> 'id run \<Rightarrow> 'id world" where
  "final w r = last (w # trace r)"

text \<open>
  \<^verbatim>\<open>publishProcess\<close> of \<^verbatim>\<open>server.go\<close> (lines 62 to 136), in the steps its comments
  number; the command-line copy in \<^verbatim>\<open>publish.go\<close> takes the same steps and exits
  where this one returns the error.

  Step 1, up to the decoded slice (lines 63 to 73): any error of \<^verbatim>\<open>os.ReadFile\<close>, a
  missing file included, ends the run.
\<close>

definition publish_parse_album :: "'id world \<Rightarrow> error + 'id AlbumItem list" where
  "publish_parse_album w =
    (case ReadFile (album_json w) of
       Inl _ \<Rightarrow> Inl ErrReadingAlbum
     | Inr albumFile \<Rightarrow>
    (case Unmarshal albumFile of
       None \<Rightarrow> Inl ErrParsingAlbum
     | Some albumItems \<Rightarrow> Inr albumItems))"

text \<open>Step 5, reading (lines 95 to 108): a missing \<^verbatim>\<open>archive.json\<close> leaves the slice nil.\<close>

definition publish_read_archive :: "'id world \<Rightarrow> error + 'id AlbumItem list" where
  "publish_read_archive w =
    (case ReadFile (archive_json w) of
       Inr archiveFile \<Rightarrow>
         (case Unmarshal archiveFile of
            None \<Rightarrow> Inl ErrParsingArchive
          | Some archiveItems \<Rightarrow> Inr archiveItems)
     | Inl NotExist \<Rightarrow> Inr []
     | Inl ReadFailed \<Rightarrow> Inl ErrReadingArchive)"

text \<open>
  Steps 5 and 6 (lines 94 to 135): append to the Archive and write it, then drop the
  first item of the Queue and write it. \<open>w1\<close> is the world after the upload, \<open>logs\<close>
  what has been logged so far, \<open>rest\<close> is \<^verbatim>\<open>albumItems[1:]\<close>.
\<close>

definition publish_commit ::
  "env \<Rightarrow> 'id world \<Rightarrow> log_line list \<Rightarrow> 'id AlbumItem \<Rightarrow> 'id AlbumItem list \<Rightarrow> 'id run" where
  "publish_commit e w1 logs firstItem rest =
    (case publish_read_archive w1 of
       Inl err \<Rightarrow> ([w1], logs, Some err)
     | Inr archiveItems \<Rightarrow>
    (case Marshal (archiveItems @ [firstItem]) of
       None \<Rightarrow> ([w1], logs, Some ErrSerializingArchive)
     | Some archiveData \<Rightarrow>
    (case WriteFile (write_archive e) archiveData (archive_json w1) of (f, ok) \<Rightarrow>
     let w2 = w1\<lparr>archive_json := f\<rparr> in
     if \<not> ok then ([w1, w2], logs, Some ErrWritingArchive)
     else
    (case Marshal rest of
       None \<Rightarrow> ([w1, w2], logs, Some ErrSerializingAlbum)
     | Some albumData \<Rightarrow>
    (case WriteFile (write_album e) albumData (album_json w2) of (g, ok') \<Rightarrow>
     let w3 = w2\<lparr>album_json := g\<rparr> in
     if \<not> ok' then ([w1, w2, w3], logs, Some ErrWritingAlbum)
     else ([w1, w2, w3], logs @ [LogSuccess], None))))))"

text \<open>The whole process: steps 1 to 4, then the commit.\<close>

definition publishProcess :: "env \<Rightarrow> 'id world \<Rightarrow> 'id run" where
  "publishProcess e w =
    (case publish_parse_album w of
       Inl err \<Rightarrow> ([], [], Some err)
     | Inr albumItems \<Rightarrow>
    (case albumItems of
       [] \<Rightarrow> ([], [], Some NoItemsInAlbum)
     | firstItem # rest \<Rightarrow>
    (case uploadToSFTP (sftp e) firstItem (today_json w) of (today', ulog, uerr) \<Rightarrow>
     let w1 = w\<lparr>today_json := today'\<rparr> in
    (case uerr of
       Some se \<Rightarrow> ([w1], LogPublishing # ulog, Some (ErrUploadingToSFTP se))
     | None \<Rightarrow>
       publish_commit e w1 (LogPublishing # ulog @ invalidate_advisory (cdn e))
         firstItem rest))))"

text \<open>
  \<^verbatim>\<open>unpublishProcess\<close> of \<^verbatim>\<open>unpublish.go\<close> (lines 26 to 114), in the steps its
  comments number. Each \<^verbatim>\<open>os.Exit(1)\<close> is an error result.

  Step 1, up to the decoded slice (lines 28 to 39).
\<close>

definition unpublish_parse_archive :: "'id world \<Rightarrow> error + 'id AlbumItem list" where
  "unpublish_parse_archive w =
    (case ReadFile (archive_json w) of
       Inl _ \<Rightarrow> Inl ErrReadingArchive
     | Inr archiveFile \<Rightarrow>
    (case Unmarshal archiveFile of
       None \<Rightarrow> Inl ErrParsingArchive
     | Some archiveItems \<Rightarrow> Inr archiveItems))"

text \<open>Step 3 (lines 52 to 66): a missing \<^verbatim>\<open>album.json\<close> leaves the slice nil.\<close>

definition unpublish_read_album :: "'id world \<Rightarrow> error + 'id AlbumItem list" where
  "unpublish_read_album w =
    (case ReadFile (album_json w) of
       Inr albumFile \<Rightarrow>
         (case Unmarshal albumFile of
            None \<Rightarrow> Inl ErrParsingAlbum
          | Some albumItems \<Rightarrow> Inr albumItems)
     | Inl NotExist \<Rightarrow> Inr []
     | Inl ReadFailed \<Rightarrow> Inl ErrReadingAlbum)"

text \<open>
  The update of the remote pointer (lines 72 to 87), run only when the shortened Archive
  still has items: either the run stops with the upload's error, or it goes on from the
  world, the trace and the log returned.
\<close>

definition unpublish_update_today ::
  "env \<Rightarrow> 'id world \<Rightarrow> 'id AlbumItem list
    \<Rightarrow> 'id run + ('id world \<times> 'id world list \<times> log_line list)" where
  "unpublish_update_today e w archiveItems =
    (if length archiveItems > 0 then
       let newLastItem = archiveItems ! (length archiveItems - 1) in
       (case uploadToSFTP (sftp e) newLastItem (today_json w) of (today', ulog, uerr) \<Rightarrow>
        let w1 = w\<lparr>today_json := today'\<rparr> in
        (case uerr of
           Some se \<Rightarrow> Inl ([w1], LogUnpublishing # ulog, Some (ErrUploadingToSFTP se))
         | None \<Rightarrow>
             Inr (w1, [w1], LogUnpublishing # ulog @ invalidate_advisory (cdn e) @
                    [LogUpdatedToday])))
     else Inr (w, [], [LogUnpublishing]))"

text \<open>Steps 6 and 7 (lines 89 to 113): write the Archive, then the Queue.\<close>

definition unpublish_commit ::
  "env \<Rightarrow> 'id world \<Rightarrow> 'id world list \<Rightarrow> log_line list
    \<Rightarrow> 'id AlbumItem list \<Rightarrow> 'id AlbumItem list \<Rightarrow> 'id run" where
  "unpublish_commit e w1 tr logs archiveItems albumItems =
    (case Marshal archiveItems of
       None \<Rightarrow> (tr, logs, Some ErrSerializingArchive)
     | Some archiveData \<Rightarrow>
    (case WriteFile (write_archive e) archiveData (archive_json w1) of (f, ok) \<Rightarrow>
     let w2 = w1\<lparr>archive_json := f\<rparr> in
     if \<not> ok then (tr @ [w2], logs, Some ErrWritingArchive)
     else
    (case Marshal albumItems of
       None \<Rightarrow> (tr @ [w2], logs, Some ErrSerializingAlbum)
     | Some albumData \<Rightarrow>
    (case WriteFile (write_album e) albumData (album_json w2) of (g, ok') \<Rightarrow>
     let w3 = w2\<lparr>album_json := g\<rparr> in
     if \<not> ok' then (tr @ [w2, w3], logs, Some ErrWritingAlbum)
     else (tr @ [w2, w3], logs @ [LogSuccess], None)))))"

text \<open>
  The whole process. \<^verbatim>\<open>archiveItems[:lastIndex]\<close> is \<open>take lastIndex\<close>, and the index
  \<open>lastIndex\<close> is read only when the slice is non-empty.
\<close>

definition unpublishProcess :: "env \<Rightarrow> 'id world \<Rightarrow> 'id run" where
  "unpublishProcess e w =
    (case unpublish_parse_archive w of
       Inl err \<Rightarrow> ([], [], Some err)
     | Inr archiveItems \<Rightarrow>
     if length archiveItems = 0 then ([], [], Some NoItemsInArchive)
     else
       let lastIndex = length archiveItems - 1;
           lastItem = archiveItems ! lastIndex in
    (case unpublish_read_album w of
       Inl err \<Rightarrow> ([], [LogUnpublishing], Some err)
     | Inr albumItems \<Rightarrow>
    (case unpublish_update_today e w (take lastIndex archiveItems) of
       Inl stopped \<Rightarrow> stopped
     | Inr (w1, tr, logs) \<Rightarrow>
         unpublish_commit e w1 tr logs (take lastIndex archiveItems)
           ([lastItem] @ albumItems))))"

text \<open>
  The sequence a file persists: the items a reader decodes from it, and no items when
  there is nothing to decode.
\<close>

definition items_of :: "'id local_file \<Rightarrow> 'id AlbumItem list" where
  "items_of f =
    (case ReadFile f of
       Inl _ \<Rightarrow> []
     | Inr d \<Rightarrow> (case Unmarshal d of None \<Rightarrow> [] | Some xs \<Rightarrow> xs))"

definition Queue :: "'id world \<Rightarrow> 'id AlbumItem list" where
  "Queue w = items_of (album_json w)"

definition Archive :: "'id world \<Rightarrow> 'id AlbumItem list" where
  "Archive w = items_of (archive_json w)"

text \<open>
  The invariant of the data model: no identifier occurs twice in the Queue and the
  Archive taken together.
\<close>

definition unique_ids :: "'id world \<Rightarrow> bool" where
  "unique_ids w = distinct (map ID (Queue w @ Archive w))"

text \<open>
  A PUBLISH is torn when \<^verbatim>\<open>archive.json\<close> receives the appended item and
  \<^verbatim>\<open>album.json\<close> keeps its old content: the Archive write reports an error after the
  data reached the file, or the Archive is written and the Queue file cannot be opened
  for writing.
\<close>

definition torn :: "env \<Rightarrow> bool" where
  "torn e = (write_archive e = CloseFailed \<or>
             (write_archive e = Written \<and> write_album e = OpenFailed))"

text \<open>
  The states reached from \<open>w0\<close> by invocations of the two processes, each in an
  environment of its own, successful or not, where no PUBLISH is torn.
\<close>

inductive reachable :: "'id world \<Rightarrow> 'id world \<Rightarrow> bool" for w0 :: "'id world" where
  start: "reachable w0 w0"
| publish: "reachable w0 w \<Longrightarrow> \<not> torn e \<Longrightarrow> reachable w0 (final w (publishProcess e w))"
| unpublish: "reachable w0 w \<Longrightarrow> reachable w0 (final w (unpublishProcess e w))"

section \<open>Content-addressable ingestion\<close>

type_synonym byte = "8 word"

text \<open>
  \<^verbatim>\<open>fmt.Sprintf("%x", hashBytes)\<close>: two lowercase hexadecimal digits for each byte, the
  high half first.
\<close>

definition hexDigit :: "nat \<Rightarrow> char" where
  "hexDigit n = ''0123456789abcdef'' ! n"

definition hexByte :: "byte \<Rightarrow> string" where
  "hexByte b = [hexDigit (unat (drop_bit 4 b)), hexDigit (unat (take_bit 4 b))]"

definition hexString :: "byte list \<Rightarrow> string" where
  "hexString bs = concat (map hexByte bs)"

text \<open>
  The outcome of the calls the upload handler makes. \<open>bytes_copied\<close> is how much of the
  file has reached the remote store when the remote copy fails.
\<close>

record upload_env =
  mkdir_all_ok :: bool
  create_ok :: bool
  copy_ok :: bool
  file_sftp :: sftp_env
  open_local_ok :: bool
  bytes_copied :: nat
  CDN_URL :: string

datatype request = Request (Method: string) (form_file: "(string \<times> byte list) option")

datatype response = HttpError nat string | Ok | OkUrl string

text \<open>
  \<^verbatim>\<open>uploadFileToSFTP(localFilePath, remoteFileName)\<close>, on the remote store as a map from
  paths to bytes; \<open>localData\<close> is the content of the local file.
\<close>

definition uploadFileToSFTP ::
  "sftp_env \<Rightarrow> bool \<Rightarrow> nat \<Rightarrow> byte list \<Rightarrow> string \<Rightarrow> (string \<rightharpoonup> byte list)
    \<Rightarrow> (string \<rightharpoonup> byte list) \<times> sftp_error option" where
  "uploadFileToSFTP s open_ok n localData remoteFileName remote =
    (case sftp_connect s of
       Some err \<Rightarrow> (remote, Some err)
     | None \<Rightarrow>
       if \<not> open_ok then (remote, Some OpenLocal)
       else
         let contentDir = ''content'';
             remoteFilePath = contentDir @ ''/'' @ remoteFileName in
         if \<not> remote_create_ok s then (remote, Some CreateRemote)
         else if \<not> remote_write_ok s
         then (remote(remoteFilePath \<mapsto> take n localData), Some WriteRemote)
         else (remote(remoteFilePath \<mapsto> localData), None))"

text \<open>
  The name the upload handler gives the file (lines 322 to 324 of \<^verbatim>\<open>server.go\<close>);
  \<open>sha256\<close> stands for the digest of \<^verbatim>\<open>crypto/sha256\<close>.
\<close>

definition filename :: "(byte list \<Rightarrow> byte list) \<Rightarrow> byte list \<Rightarrow> string \<Rightarrow> string" where
  "filename sha256 fileData fileExt =
    (let hashBytes = sha256 fileData;
         hashString = hexString hashBytes
     in hashString @ fileExt)"

text \<open>
  The handler of \<^verbatim>\<open>/api/upload\<close> in \<^verbatim>\<open>startServer\<close> (lines 255 to 366), with
  \<^verbatim>\<open>crypto/sha256\<close> and \<^verbatim>\<open>filepath.Ext\<close> passed in. The hasher receives exactly the
  bytes \<^verbatim>\<open>io.Copy\<close> reads from the uploaded file. The temporary local file is named
  after the clock, is renamed to the final name when that succeeds and is removed on
  every path; it decides neither the name nor the response and is left out.
\<close>

definition uploadHandler ::
  "(byte list \<Rightarrow> byte list) \<Rightarrow> (string \<Rightarrow> string) \<Rightarrow> upload_env \<Rightarrow> request
    \<Rightarrow> (string \<rightharpoonup> byte list) \<Rightarrow> response \<times> (string \<rightharpoonup> byte list)" where
  "uploadHandler sha256 Ext u r remote =
    (if Method r = ''OPTIONS'' then (Ok, remote)
     else if Method r \<noteq> ''POST'' then (HttpError 405 ''Method not allowed'', remote)
     else
    (case form_file r of
       None \<Rightarrow> (HttpError 400 ''Error retrieving the file'', remote)
     | Some (handlerFilename, fileData) \<Rightarrow>
       if \<not> mkdir_all_ok u then (HttpError 500 ''Error creating upload directory'', remote)
       else
         let fileExt = Ext handlerFilename in
         if \<not> create_ok u then (HttpError 500 ''Error creating file on server'', remote)
         else if \<not> copy_ok u then (HttpError 500 ''Error saving file on server'', remote)
         else
           let name = filename sha256 fileData fileExt in
          (case uploadFileToSFTP (file_sftp u) (open_local_ok u) (bytes_copied u)
                  fileData name remote of (remote', uerr) \<Rightarrow>
           (case uerr of
              Some err \<Rightarrow> (HttpError 500 ''Error uploading file to SFTP'', remote')
            | None \<Rightarrow>
              let cdnURL = (if CDN_URL u = [] then ''https://example.com'' else CDN_URL u);
                  imageURL = cdnURL @ ''/content/'' @ name
              in (OkUrl imageURL, remote')))))"

section \<open>Example inputs\<close>

definition sftp_up :: sftp_env where
  "sftp_up = \<lparr>SFTP_HOST = ''files.example.org'', SFTP_PORT = [], SFTP_USER = ''creator'',
     SFTP_PASSWORD = ''secret'', SFTP_PRIVATE_KEY_PATH = [], Atoi = (\<lambda>s. None),
     key_read_ok = False, key_parse_ok = False, dial_ok = True, new_client_ok = True,
     remote_create_ok = True, remote_write_ok = True\<rparr>"

definition sftp_down :: sftp_env where
  "sftp_down = sftp_up\<lparr>dial_ok := False\<rparr>"

definition cdn_up :: cdn_env where
  "cdn_up = \<lparr>BUNNY_API_KEY = ''key'', BUNNY_CDN_URL = ''https://cdn.example.org'',
     new_request_ok = True, do_ok = True, status_code = 200\<rparr>"

definition cdn_down :: cdn_env where
  "cdn_down = cdn_up\<lparr>status_code := 503\<rparr>"

definition env_up :: env where
  "env_up = \<lparr>sftp = sftp_up, cdn = cdn_up, write_archive = Written, write_album = Written\<rparr>"

definition item1 :: "string AlbumItem" where
  "item1 = \<lparr>ID = ''1'', URL = ''a'', Description = [], Credits = []\<rparr>"

definition item2 :: "string AlbumItem" where
  "item2 = \<lparr>ID = ''2'', URL = ''b'', Description = [], Credits = []\<rparr>"

definition item3 :: "string AlbumItem" where
  "item3 = \<lparr>ID = ''3'', URL = ''c'', Description = [], Credits = []\<rparr>"

text \<open>The first scenario of the specification: two queued items, nothing published.\<close>

definition world0 :: "string world" where
  "world0 = \<lparr>album_json = Present (Items [item1, item2]), archive_json = Missing,
     today_json = None\<rparr>"

text \<open>One item live, one older in the Archive, one queued.\<close>

definition world1 :: "string world" where
  "world1 = \<lparr>album_json = Present (Items [item3]),
     archive_json = Present (Items [item1, item2]), today_json = Some (Item item2)\<rparr>"

text \<open>The state after the first PUBLISH of the scenario: one item live, one queued.\<close>

definition world_one :: "string world" where
  "world_one = \<lparr>album_json = Present (Items [item2]),
     archive_json = Present (Items [item1]), today_json = Some (Item item1)\<rparr>"

text \<open>Both files hold an empty array; the pointer still names an item.\<close>

definition world_empty :: "string world" where
  "world_empty = \<lparr>album_json = Present (Items []), archive_json = Present (Items []),
     today_json = Some (Item item1)\<rparr>"

text \<open>A new installation: neither file exists.\<close>

definition world_fresh :: "string world" where
  "world_fresh = \<lparr>album_json = Missing, archive_json = Missing, today_json = None\<rparr>"

text \<open>Environments in which one call fails and every other call succeeds.\<close>

definition env_sftp_down :: env where
  "env_sftp_down = env_up\<lparr>sftp := sftp_down\<rparr>"

definition env_cdn_down :: env where
  "env_cdn_down = env_up\<lparr>cdn := cdn_down\<rparr>"

definition env_album_readonly :: env where
  "env_album_readonly = env_up\<lparr>write_album := OpenFailed\<rparr>"

text \<open>
  Stand-ins for the two library functions the upload handler takes: a two-byte digest
  (the sum of the bytes, then their number) and the extension of a file name as
  \<^verbatim>\<open>filepath.Ext\<close> finds it (from the last dot of the last path element on).
\<close>

definition example_digest :: "byte list \<Rightarrow> byte list" where
  "example_digest bs = [foldr (+) bs 0, of_nat (length bs)]"

definition example_Ext :: "string \<Rightarrow> string" where
  "example_Ext path =
    (let base = rev (takeWhile (\<lambda>c. c \<noteq> CHR ''/'') (rev path))
     in if CHR ''.'' \<in> set base
        then CHR ''.'' # rev (takeWhile (\<lambda>c. c \<noteq> CHR ''.'') (rev base))
        else [])"

definition upload_up :: upload_env where
  "upload_up = \<lparr>mkdir_all_ok = True, create_ok = True, copy_ok = True, file_sftp = sftp_up,
     open_local_ok = True, bytes_copied = 0, CDN_URL = ''https://cdn.example.org''\<rparr>"

section \<open>Basic facts\<close>

lemma items_of_simps [simp]:
  "items_of Missing = []" "items_of Unreadable = []"
  "items_of (Present (Items xs)) = xs" "items_of (Present Null) = []"
  "items_of (Present (Item x)) = []" "items_of (Present Garbage) = []"
  by (simp_all add: items_of_def)

lemma Unmarshal_items_of:
  "Unmarshal d = Some xs \<Longrightarrow> items_of (Present d) = xs"
  by (cases d) auto

lemma Unmarshal_Cons:
  "Unmarshal d = Some (x # xs) \<Longrightarrow> d = Items (x # xs)"
  by (cases d) auto

lemma WriteFile_True:
  "WriteFile out d f = (g, True) \<Longrightarrow> out = Written \<and> g = Present d"
  by (cases out) auto

lemma WriteFile_False:
  "WriteFile out d f = (g, False) \<Longrightarrow>
     (out = OpenFailed \<and> g = f) \<or> (out = WriteFailed \<and> g = Present Garbage) \<or>
     (out = CloseFailed \<and> g = Present d)"
  by (cases out) auto

lemma upload_done:
  "uploadToSFTP s x t = (t', l, None) \<Longrightarrow> t' = Some (Item x) \<and> l = [LogUploaded]"
  by (auto simp: uploadToSFTP_def MarshalItem_def split: option.splits if_splits)

lemma upload_failed:
  "uploadToSFTP s x t = (t', l, Some err) \<Longrightarrow> (t' = t \<or> t' = Some Garbage) \<and> l = []"
  by (auto simp: uploadToSFTP_def MarshalItem_def split: option.splits if_splits)

lemma publish_parse_album_Inr:
  "publish_parse_album w = Inr xs \<Longrightarrow>
     \<exists>d. album_json w = Present d \<and> Unmarshal d = Some xs \<and> Queue w = xs"
  by (cases "album_json w")
    (auto simp: publish_parse_album_def Queue_def Unmarshal_items_of split: option.splits)

lemma publish_read_archive_Inr:
  "publish_read_archive w = Inr ys \<Longrightarrow> Archive w = ys \<and> archive_json w \<noteq> Unreadable"
  by (cases "archive_json w")
    (auto simp: publish_read_archive_def Archive_def Unmarshal_items_of split: option.splits)

lemma unpublish_parse_archive_Inr:
  "unpublish_parse_archive w = Inr xs \<Longrightarrow>
     \<exists>d. archive_json w = Present d \<and> Unmarshal d = Some xs \<and> Archive w = xs"
  by (cases "archive_json w")
    (auto simp: unpublish_parse_archive_def Archive_def Unmarshal_items_of split: option.splits)

lemma unpublish_read_album_Inr:
  "unpublish_read_album w = Inr ys \<Longrightarrow> Queue w = ys \<and> album_json w \<noteq> Unreadable"
  by (cases "album_json w")
    (auto simp: unpublish_read_album_def Queue_def Unmarshal_items_of split: option.splits)

subsection \<open>The runs, outcome by outcome\<close>

lemma publish_commit_failed_read:
  "publish_read_archive w1 = Inl err \<Longrightarrow> publish_commit e w1 logs x rest = ([w1], logs, Some err)"
  by (simp add: publish_commit_def)

lemma publish_commit_run:
  assumes "publish_read_archive w1 = Inr ys"
  shows "publish_commit e w1 logs x rest =
    (case write_archive e of
       Written \<Rightarrow>
         (case write_album e of
            Written \<Rightarrow>
              ([w1, w1\<lparr>archive_json := Present (Items (ys @ [x]))\<rparr>,
                w1\<lparr>archive_json := Present (Items (ys @ [x])), album_json := Present (Items rest)\<rparr>],
               logs @ [LogSuccess], None)
          | OpenFailed \<Rightarrow>
              ([w1, w1\<lparr>archive_json := Present (Items (ys @ [x]))\<rparr>,
                w1\<lparr>archive_json := Present (Items (ys @ [x]))\<rparr>],
               logs, Some ErrWritingAlbum)
          | WriteFailed \<Rightarrow>
              ([w1, w1\<lparr>archive_json := Present (Items (ys @ [x]))\<rparr>,
                w1\<lparr>archive_json := Present (Items (ys @ [x])), album_json := Present Garbage\<rparr>],
               logs, Some ErrWritingAlbum)
          | CloseFailed \<Rightarrow>
              ([w1, w1\<lparr>archive_json := Present (Items (ys @ [x]))\<rparr>,
                w1\<lparr>archive_json := Present (Items (ys @ [x])), album_json := Present (Items rest)\<rparr>],
               logs, Some ErrWritingAlbum))
     | OpenFailed \<Rightarrow> ([w1, w1], logs, Some ErrWritingArchive)
     | WriteFailed \<Rightarrow> ([w1, w1\<lparr>archive_json := Present Garbage\<rparr>], logs, Some ErrWritingArchive)
     | CloseFailed \<Rightarrow>
         ([w1, w1\<lparr>archive_json := Present (Items (ys @ [x]))\<rparr>], logs, Some ErrWritingArchive))"
  using assms
  by (cases "write_archive e"; cases "write_album e")
     (simp_all add: publish_commit_def Marshal_def Let_def)


lemma unpublish_commit_run:
  "unpublish_commit e w1 tr logs ys qs =
    (case write_archive e of
       Written \<Rightarrow>
         (case write_album e of
            Written \<Rightarrow>
              (tr @ [w1\<lparr>archive_json := Present (Items ys)\<rparr>,
                w1\<lparr>archive_json := Present (Items ys), album_json := Present (Items qs)\<rparr>],
               logs @ [LogSuccess], None)
          | OpenFailed \<Rightarrow>
              (tr @ [w1\<lparr>archive_json := Present (Items ys)\<rparr>,
                w1\<lparr>archive_json := Present (Items ys)\<rparr>],
               logs, Some ErrWritingAlbum)
          | WriteFailed \<Rightarrow>
              (tr @ [w1\<lparr>archive_json := Present (Items ys)\<rparr>,
                w1\<lparr>archive_json := Present (Items ys), album_json := Present Garbage\<rparr>],
               logs, Some ErrWritingAlbum)
          | CloseFailed \<Rightarrow>
              (tr @ [w1\<lparr>archive_json := Present (Items ys)\<rparr>,
                w1\<lparr>archive_json := Present (Items ys), album_json := Present (Items qs)\<rparr>],
               logs, Some ErrWritingAlbum))
     | OpenFailed \<Rightarrow> (tr @ [w1], logs, Some ErrWritingArchive)
     | WriteFailed \<Rightarrow> (tr @ [w1\<lparr>archive_json := Present Garbage\<rparr>], logs, Some ErrWritingArchive)
     | CloseFailed \<Rightarrow>
         (tr @ [w1\<lparr>archive_json := Present (Items ys)\<rparr>], logs, Some ErrWritingArchive))"
  by (cases "write_archive e"; cases "write_album e")
     (simp_all add: unpublish_commit_def Marshal_def Let_def)

lemma unpublish_update_today_Inr:
  assumes "unpublish_update_today e w ys = Inr (w1, tr, logs)"
  shows "album_json w1 = album_json w \<and> archive_json w1 = archive_json w \<and>
         (ys = [] \<longrightarrow> w1 = w \<and> tr = []) \<and>
         (ys \<noteq> [] \<longrightarrow> w1 = w\<lparr>today_json := Some (Item (last ys))\<rparr> \<and> tr = [w1])"
proof (cases ys)
  case Nil
  with assms show ?thesis by (simp add: unpublish_update_today_def)
next
  case (Cons y ys')
  obtain t l uerr where u: "uploadToSFTP (sftp e) (last ys) (today_json w) = (t, l, uerr)"
    by (cases "uploadToSFTP (sftp e) (last ys) (today_json w)") auto
  have n: "ys ! (length ys - 1) = last ys" using Cons by (simp add: last_conv_nth)
  show ?thesis
  proof (cases uerr)
    case None
    with u have "t = Some (Item (last ys))" by (simp add: upload_done)
    with assms u None n Cons show ?thesis
      by (auto simp: unpublish_update_today_def Let_def split: prod.splits)
  next
    case (Some se)
    with assms u n Cons show ?thesis
      by (simp add: unpublish_update_today_def Let_def)
  qed
qed

lemma unpublish_update_today_Inl:
  assumes "unpublish_update_today e w ys = Inl r"
  shows "ys \<noteq> [] \<and> (\<exists>t l se. uploadToSFTP (sftp e) (last ys) (today_json w) = (t, l, Some se) \<and>
           r = ([w\<lparr>today_json := t\<rparr>], LogUnpublishing # l, Some (ErrUploadingToSFTP se)))"
proof (cases ys)
  case Nil
  with assms show ?thesis by (simp add: unpublish_update_today_def)
next
  case (Cons y ys')
  obtain t l uerr where u: "uploadToSFTP (sftp e) (last ys) (today_json w) = (t, l, uerr)"
    by (cases "uploadToSFTP (sftp e) (last ys) (today_json w)") auto
  have n: "ys ! (length ys - 1) = last ys" using Cons by (simp add: last_conv_nth)
  show ?thesis
  proof (cases uerr)
    case None
    with assms u n Cons show ?thesis
      by (auto simp: unpublish_update_today_def Let_def split: prod.splits)
  next
    case (Some se)
    with assms u n Cons show ?thesis
      by (auto simp: unpublish_update_today_def Let_def)
  qed
qed

lemma publish_run_stopped:
  "publish_parse_album w = Inl err \<Longrightarrow> publishProcess e w = ([], [], Some err)"
  "publish_parse_album w = Inr [] \<Longrightarrow> publishProcess e w = ([], [], Some NoItemsInAlbum)"
  by (simp_all add: publishProcess_def)

lemma publish_run_upload_failed:
  "publish_parse_album w = Inr (x # xs) \<Longrightarrow>
   uploadToSFTP (sftp e) x (today_json w) = (t, l, Some se) \<Longrightarrow>
   publishProcess e w = ([w\<lparr>today_json := t\<rparr>], LogPublishing # l, Some (ErrUploadingToSFTP se))"
  by (simp add: publishProcess_def)

lemma publish_run_uploaded:
  "publish_parse_album w = Inr (x # xs) \<Longrightarrow>
   uploadToSFTP (sftp e) x (today_json w) = (t, l, None) \<Longrightarrow>
   publishProcess e w =
     publish_commit e (w\<lparr>today_json := Some (Item x)\<rparr>)
       (LogPublishing # LogUploaded # invalidate_advisory (cdn e)) x xs"
  by (frule upload_done)
     (simp add: publishProcess_def)

lemma publish_shape:
  "(\<exists>err. publish_parse_album w = Inl err \<and> publishProcess e w = ([], [], Some err)) \<or>
   (publish_parse_album w = Inr [] \<and> publishProcess e w = ([], [], Some NoItemsInAlbum)) \<or>
   (\<exists>x xs t l se. publish_parse_album w = Inr (x # xs) \<and>
      uploadToSFTP (sftp e) x (today_json w) = (t, l, Some se) \<and>
      publishProcess e w =
        ([w\<lparr>today_json := t\<rparr>], LogPublishing # l, Some (ErrUploadingToSFTP se))) \<or>
   (\<exists>x xs t l. publish_parse_album w = Inr (x # xs) \<and>
      uploadToSFTP (sftp e) x (today_json w) = (t, l, None) \<and>
      publishProcess e w =
        publish_commit e (w\<lparr>today_json := Some (Item x)\<rparr>)
          (LogPublishing # LogUploaded # invalidate_advisory (cdn e)) x xs)"
proof (cases "publish_parse_album w")
  case (Inl err)
  then show ?thesis using publish_run_stopped(1) by blast
next
  case (Inr albumItems)
  show ?thesis
  proof (cases albumItems)
    case Nil
    with Inr show ?thesis using publish_run_stopped(2) by blast
  next
    case (Cons x xs)
    obtain t l uerr where u: "uploadToSFTP (sftp e) x (today_json w) = (t, l, uerr)"
      by (cases "uploadToSFTP (sftp e) x (today_json w)") auto
    show ?thesis
    proof (cases uerr)
      case None
      with Inr Cons u show ?thesis using publish_run_uploaded by blast
    next
      case (Some se)
      with Inr Cons u show ?thesis using publish_run_upload_failed by blast
    qed
  qed
qed

lemma unpublish_run_stopped:
  "unpublish_parse_archive w = Inl err \<Longrightarrow> unpublishProcess e w = ([], [], Some err)"
  "unpublish_parse_archive w = Inr [] \<Longrightarrow> unpublishProcess e w = ([], [], Some NoItemsInArchive)"
  "unpublish_parse_archive w = Inr (y # ys) \<Longrightarrow> unpublish_read_album w = Inl err \<Longrightarrow>
     unpublishProcess e w = ([], [LogUnpublishing], Some err)"
  by (simp_all add: unpublishProcess_def)

lemma take_last_index:
  "xs \<noteq> [] \<Longrightarrow> take (length xs - Suc 0) xs = butlast xs \<and> xs ! (length xs - Suc 0) = last xs"
  by (simp add: butlast_conv_take last_conv_nth)

lemma unpublish_run_loaded:
  assumes "unpublish_parse_archive w = Inr as" "as \<noteq> []" "unpublish_read_album w = Inr qs"
  shows "unpublishProcess e w =
    (case unpublish_update_today e w (butlast as) of
       Inl stopped \<Rightarrow> stopped
     | Inr (w1, tr, logs) \<Rightarrow> unpublish_commit e w1 tr logs (butlast as) (last as # qs))"
  using assms
  by (simp add: unpublishProcess_def Let_def take_last_index split: sum.split)


lemmas run_defs = result_def final_def trace_def logged_def

lemma publish_success_final:
  assumes "result (publishProcess e w) = None"
  shows "\<exists>x xs. Queue w = x # xs \<and> album_json w = Present (Items (x # xs)) \<and>
           final w (publishProcess e w) =
             \<lparr>album_json = Present (Items xs),
              archive_json = Present (Items (Archive w @ [x])),
              today_json = Some (Item x)\<rparr>"
proof -
  from publish_shape [of w e] assms obtain x xs t l where
    p: "publish_parse_album w = Inr (x # xs)" and
    r: "publishProcess e w =
         publish_commit e (w\<lparr>today_json := Some (Item x)\<rparr>)
           (LogPublishing # LogUploaded # invalidate_advisory (cdn e)) x xs"
    by (auto simp: result_def)
  let ?w1 = "w\<lparr>today_json := Some (Item x)\<rparr>"
  from publish_parse_album_Inr [OF p] have q: "Queue w = x # xs"
    and a: "album_json w = Present (Items (x # xs))"
    by (auto dest: Unmarshal_Cons)
  obtain ys where ra: "publish_read_archive ?w1 = Inr ys"
    using assms r by (cases "publish_read_archive ?w1") (auto simp: publish_commit_failed_read result_def)
  from publish_read_archive_Inr [OF ra] have ys: "ys = Archive w"
    by (simp add: Archive_def)
  from assms r have "write_archive e = Written \<and> write_album e = Written"
    by (cases "write_archive e"; cases "write_album e")
       (simp_all add: publish_commit_run [OF ra] result_def)
  with r have "final w (publishProcess e w) =
      ?w1\<lparr>archive_json := Present (Items (ys @ [x])), album_json := Present (Items xs)\<rparr>"
    by (simp add: publish_commit_run [OF ra] final_def trace_def)
  also have "\<dots> = \<lparr>album_json = Present (Items xs),
              archive_json = Present (Items (Archive w @ [x])),
              today_json = Some (Item x)\<rparr>"
    by (intro world.equality) (simp_all add: ys a)
  finally show ?thesis using q a by blast
qed

lemma unpublish_shape:
  "(\<exists>err. unpublish_parse_archive w = Inl err \<and> unpublishProcess e w = ([], [], Some err)) \<or>
   (unpublish_parse_archive w = Inr [] \<and>
      unpublishProcess e w = ([], [], Some NoItemsInArchive)) \<or>
   (\<exists>as err. unpublish_parse_archive w = Inr as \<and> as \<noteq> [] \<and>
      unpublish_read_album w = Inl err \<and>
      unpublishProcess e w = ([], [LogUnpublishing], Some err)) \<or>
   (\<exists>as qs t l se. unpublish_parse_archive w = Inr as \<and> as \<noteq> [] \<and>
      unpublish_read_album w = Inr qs \<and> butlast as \<noteq> [] \<and>
      uploadToSFTP (sftp e) (last (butlast as)) (today_json w) = (t, l, Some se) \<and>
      unpublishProcess e w =
        ([w\<lparr>today_json := t\<rparr>], LogUnpublishing # l, Some (ErrUploadingToSFTP se))) \<or>
   (\<exists>as qs w1 tr logs. unpublish_parse_archive w = Inr as \<and> as \<noteq> [] \<and>
      unpublish_read_album w = Inr qs \<and>
      unpublish_update_today e w (butlast as) = Inr (w1, tr, logs) \<and>
      unpublishProcess e w = unpublish_commit e w1 tr logs (butlast as) (last as # qs))"
proof (cases "unpublish_parse_archive w")
  case (Inl err)
  then show ?thesis using unpublish_run_stopped(1) by blast
next
  case (Inr as)
  show ?thesis
  proof (cases as)
    case Nil
    with Inr show ?thesis using unpublish_run_stopped(2) by blast
  next
    case (Cons y ys)
    then have ne: "as \<noteq> []" by simp
    show ?thesis
    proof (cases "unpublish_read_album w")
      case (Inl err)
      with Inr Cons have "unpublishProcess e w = ([], [LogUnpublishing], Some err)"
        by (simp add: unpublish_run_stopped(3))
      with Inr Inl ne show ?thesis by blast
    next
      case qs: (Inr qs)
      note run = unpublish_run_loaded [OF Inr ne qs, of e]
      show ?thesis
      proof (cases "unpublish_update_today e w (butlast as)")
        case (Inl stopped)
        from unpublish_update_today_Inl [OF Inl] obtain t l se where
          "butlast as \<noteq> []"
          "uploadToSFTP (sftp e) (last (butlast as)) (today_json w) = (t, l, Some se)"
          "stopped = ([w\<lparr>today_json := t\<rparr>], LogUnpublishing # l, Some (ErrUploadingToSFTP se))"
          by blast
        moreover from run Inl have "unpublishProcess e w = stopped" by simp
        ultimately show ?thesis using Inr ne qs by blast
      next
        case (Inr triple)
        obtain w1 tr logs where t: "triple = (w1, tr, logs)" by (cases triple) auto
        with run Inr have
          "unpublishProcess e w = unpublish_commit e w1 tr logs (butlast as) (last as # qs)"
          by simp
        with \<open>unpublish_parse_archive w = Inr as\<close> ne qs Inr t show ?thesis by blast
      qed
    qed
  qed
qed

lemma unpublish_success_final:
  assumes "result (unpublishProcess e w) = None"
  shows "Archive w \<noteq> [] \<and>
           final w (unpublishProcess e w) =
             \<lparr>album_json = Present (Items (last (Archive w) # Queue w)),
              archive_json = Present (Items (butlast (Archive w))),
              today_json = (if butlast (Archive w) = [] then today_json w
                            else Some (Item (last (butlast (Archive w)))))\<rparr> \<and>
           (butlast (Archive w) = [] \<longrightarrow>
              (\<forall>s \<in> set (trace (unpublishProcess e w)). today_json s = today_json w))"
proof -
  from unpublish_shape [of w e] assms obtain as qs w1 tr logs where
    p: "unpublish_parse_archive w = Inr as" and ne: "as \<noteq> []" and
    q: "unpublish_read_album w = Inr qs" and
    u: "unpublish_update_today e w (butlast as) = Inr (w1, tr, logs)" and
    r: "unpublishProcess e w = unpublish_commit e w1 tr logs (butlast as) (last as # qs)"
    by (auto simp: result_def)
  from unpublish_parse_archive_Inr [OF p] have as: "Archive w = as" by blast
  from unpublish_read_album_Inr [OF q] have qs: "Queue w = qs" by blast
  from assms r have wr: "write_archive e = Written \<and> write_album e = Written"
    by (cases "write_archive e"; cases "write_album e")
       (simp_all add: unpublish_commit_run result_def)
  with r have f: "final w (unpublishProcess e w) =
      w1\<lparr>archive_json := Present (Items (butlast as)), album_json := Present (Items (last as # qs))\<rparr>"
    and tr: "trace (unpublishProcess e w) = tr @ [w1\<lparr>archive_json := Present (Items (butlast as))\<rparr>,
      w1\<lparr>archive_json := Present (Items (butlast as)), album_json := Present (Items (last as # qs))\<rparr>]"
    by (simp_all add: unpublish_commit_run final_def trace_def)
  note ut = unpublish_update_today_Inr [OF u]
  have "w1\<lparr>archive_json := Present (Items (butlast as)), album_json := Present (Items (last as # qs))\<rparr>
      = \<lparr>album_json = Present (Items (last (Archive w) # Queue w)),
              archive_json = Present (Items (butlast (Archive w))),
              today_json = (if butlast (Archive w) = [] then today_json w
                            else Some (Item (last (butlast (Archive w)))))\<rparr>"
    using ut by (intro world.equality) (auto simp: as qs)
  moreover have "butlast (Archive w) = [] \<longrightarrow>
              (\<forall>s \<in> set (trace (unpublishProcess e w)). today_json s = today_json w)"
    using ut by (auto simp: tr as)
  ultimately show ?thesis using f as ne by simp
qed

section \<open>PUBLISH\<close>

subsection \<open>Runs of the examples\<close>

lemma sftp_up_connects: "sftp_connect sftp_up = None"
  by (simp add: sftp_connect_def sftp_up_def)

lemma upload_up: "uploadToSFTP sftp_up x t = (Some (Item x), [LogUploaded], None)"
  by (simp add: uploadToSFTP_def sftp_up_connects MarshalItem_def) (simp add: sftp_up_def)

lemma publish_up_world0:
  "publishProcess env_up world0 =
    ([world0\<lparr>today_json := Some (Item item1)\<rparr>,
      world0\<lparr>today_json := Some (Item item1), archive_json := Present (Items [item1])\<rparr>,
      \<lparr>album_json = Present (Items [item2]), archive_json = Present (Items [item1]),
       today_json = Some (Item item1)\<rparr>],
     [LogPublishing, LogUploaded, LogInvalidated, LogSuccess], None)"
proof -
  have p: "publish_parse_album world0 = Inr [item1, item2]"
    by (simp add: publish_parse_album_def world0_def)
  have u: "uploadToSFTP (sftp env_up) item1 (today_json world0) = (Some (Item item1), [LogUploaded], None)"
    by (simp add: env_up_def upload_up)
  have a: "publish_read_archive (world0\<lparr>today_json := Some (Item item1)\<rparr>) = Inr []"
    by (simp add: publish_read_archive_def world0_def)
  have c: "invalidate_advisory (cdn env_up) = [LogInvalidated]"
    by (simp add: invalidate_advisory_def invalidateCache_def env_up_def cdn_up_def)
  show ?thesis
    unfolding publish_run_uploaded [OF p u] publish_commit_run [OF a] c
    by (simp add: env_up_def world0_def)
qed

text \<open>
  Claim C1. Whenever PUBLISH returns without an error, the Queue was non-empty, the
  run has removed exactly its front item (the rest keeps its order) and has appended that
  item at the back of the Archive, the Queue is one shorter and the Archive one longer,
  and the remote pointer holds the serialization of the new last item of the Archive.
\<close>

theorem publish_moves_front_to_archive:
  assumes "result (publishProcess e w) = None"
  shows "Queue w \<noteq> [] \<and>
         Queue (final w (publishProcess e w)) = tl (Queue w) \<and>
         Archive (final w (publishProcess e w)) = Archive w @ [hd (Queue w)] \<and>
         length (Queue (final w (publishProcess e w))) = length (Queue w) - 1 \<and>
         length (Archive (final w (publishProcess e w))) = length (Archive w) + 1 \<and>
         today_json (final w (publishProcess e w)) =
           MarshalItem (last (Archive (final w (publishProcess e w))))"
proof -
  from publish_success_final [OF assms] obtain x xs where
    q: "Queue w = x # xs" and
    f: "final w (publishProcess e w) =
          \<lparr>album_json = Present (Items xs),
           archive_json = Present (Items (Archive w @ [x])),
           today_json = Some (Item x)\<rparr>"
    by blast
  have "Queue (final w (publishProcess e w)) = xs"
    and "Archive (final w (publishProcess e w)) = Archive w @ [x]"
    and "today_json (final w (publishProcess e w)) = Some (Item x)"
    by (simp_all add: f Queue_def Archive_def)
  with q show ?thesis by (simp add: MarshalItem_def)
qed

theorem publish_moves_front_to_archive_witness:
  "result (publishProcess env_up world0) = None \<and>
   Queue world0 = [item1, item2] \<and>
   Queue (final world0 (publishProcess env_up world0)) = [item2] \<and>
   Archive (final world0 (publishProcess env_up world0)) = [item1] \<and>
   today_json (final world0 (publishProcess env_up world0)) = MarshalItem item1"
proof -
  have r: "result (publishProcess env_up world0) = None"
    by (simp add: publish_up_world0 result_def)
  have q: "Queue world0 = [item1, item2]" and a: "Archive world0 = []"
    by (simp_all add: world0_def Queue_def Archive_def)
  from publish_moves_front_to_archive [OF r] q a r show ?thesis by simp
qed

lemma publish_parse_album_Present:
  "album_json w = Present (Items xs) \<Longrightarrow> publish_parse_album w = Inr xs"
  "album_json w = Present Null \<Longrightarrow> publish_parse_album w = Inr []"
  by (simp_all add: publish_parse_album_def)

lemma unpublish_parse_archive_Present:
  "archive_json w = Present (Items xs) \<Longrightarrow> unpublish_parse_archive w = Inr xs"
  "archive_json w = Present Null \<Longrightarrow> unpublish_parse_archive w = Inr []"
  by (simp_all add: unpublish_parse_archive_def)

lemma Unmarshal_Nil:
  "Unmarshal d = Some [] \<Longrightarrow> d = Items [] \<or> d = Null"
  by (cases d) auto

lemma publish_read_archive_loads:
  assumes "archive_json w \<noteq> Unreadable"
    and "\<forall>d. archive_json w = Present d \<longrightarrow> Unmarshal d \<noteq> None"
  shows "publish_read_archive w = Inr (Archive w)"
  using assms
  by (cases "archive_json w")
     (auto simp: publish_read_archive_def Archive_def Unmarshal_items_of)

lemma publish_parse_album_of_empty_queue:
  assumes "Queue w = []"
  shows "(publish_parse_album w = Inl ErrReadingAlbum \<and> (\<forall>d. album_json w \<noteq> Present d)) \<or>
         (publish_parse_album w = Inl ErrParsingAlbum \<and>
            (\<exists>d. album_json w = Present d \<and> Unmarshal d = None)) \<or>
         (publish_parse_album w = Inr [] \<and>
            (\<exists>d. album_json w = Present d \<and> Unmarshal d = Some []))"
proof (cases "album_json w")
  case Missing
  then show ?thesis by (simp add: publish_parse_album_def)
next
  case Unreadable
  then show ?thesis by (simp add: publish_parse_album_def)
next
  case (Present d)
  with assms show ?thesis
    by (cases d) (simp_all add: publish_parse_album_def Queue_def)
qed

lemma unpublish_parse_archive_of_empty_archive:
  assumes "Archive w = []"
  shows "(unpublish_parse_archive w = Inl ErrReadingArchive \<and>
            (\<forall>d. archive_json w \<noteq> Present d)) \<or>
         (unpublish_parse_archive w = Inl ErrParsingArchive \<and>
            (\<exists>d. archive_json w = Present d \<and> Unmarshal d = None)) \<or>
         (unpublish_parse_archive w = Inr [] \<and>
            (\<exists>d. archive_json w = Present d \<and> Unmarshal d = Some []))"
proof (cases "archive_json w")
  case Missing
  then show ?thesis by (simp add: unpublish_parse_archive_def)
next
  case Unreadable
  then show ?thesis by (simp add: unpublish_parse_archive_def)
next
  case (Present d)
  with assms show ?thesis
    by (cases d) (simp_all add: unpublish_parse_archive_def Archive_def)
qed

lemma publish_of_empty_queue:
  assumes "Queue w = []"
  shows "result (publishProcess e w) \<in>
           {Some ErrReadingAlbum, Some ErrParsingAlbum, Some NoItemsInAlbum} \<and>
         trace (publishProcess e w) = [] \<and> final w (publishProcess e w) = w \<and>
         (result (publishProcess e w) = Some NoItemsInAlbum \<longleftrightarrow>
            (\<exists>d. album_json w = Present d \<and> Unmarshal d = Some []))"
proof -
  from publish_parse_album_of_empty_queue [OF assms] consider
      (missing) "publishProcess e w = ([], [], Some ErrReadingAlbum)"
        "\<forall>d. album_json w \<noteq> Present d"
    | (undecodable) d where "publishProcess e w = ([], [], Some ErrParsingAlbum)"
        "album_json w = Present d" "Unmarshal d = None"
    | (empty) d where "publishProcess e w = ([], [], Some NoItemsInAlbum)"
        "album_json w = Present d" "Unmarshal d = Some []"
    using publish_run_stopped(1) [of w _ e] publish_run_stopped(2) [of w e] by blast
  then show ?thesis
    by cases (auto simp: run_defs)
qed

lemma unpublish_of_empty_archive:
  assumes "Archive w = []"
  shows "result (unpublishProcess e w) \<in>
           {Some ErrReadingArchive, Some ErrParsingArchive, Some NoItemsInArchive} \<and>
         trace (unpublishProcess e w) = [] \<and> final w (unpublishProcess e w) = w \<and>
         (result (unpublishProcess e w) = Some NoItemsInArchive \<longleftrightarrow>
            (\<exists>d. archive_json w = Present d \<and> Unmarshal d = Some []))"
proof -
  from unpublish_parse_archive_of_empty_archive [OF assms] consider
      (missing) "unpublishProcess e w = ([], [], Some ErrReadingArchive)"
        "\<forall>d. archive_json w \<noteq> Present d"
    | (undecodable) d where "unpublishProcess e w = ([], [], Some ErrParsingArchive)"
        "archive_json w = Present d" "Unmarshal d = None"
    | (empty) d where "unpublishProcess e w = ([], [], Some NoItemsInArchive)"
        "archive_json w = Present d" "Unmarshal d = Some []"
    using unpublish_run_stopped(1) [of w _ e] unpublish_run_stopped(2) [of w e] by blast
  then show ?thesis
    by cases (auto simp: run_defs)
qed

text \<open>
  Claim C2, as stated, fails. On a new installation neither file exists, so the Queue
  and the Archive are empty; PUBLISH then ends with the read error of
  \<^verbatim>\<open>album.json\<close> and UNPUBLISH with the read error of \<^verbatim>\<open>archive.json\<close>, before
  either reaches the check that gives the validation error.
\<close>

theorem empty_queue_of_missing_file_is_a_read_error:
  "Queue world_fresh = [] \<and>
   result (publishProcess env_up world_fresh) = Some ErrReadingAlbum \<and>
   result (publishProcess env_up world_fresh) \<noteq> Some NoItemsInAlbum \<and>
   Archive world_fresh = [] \<and>
   result (unpublishProcess env_up world_fresh) = Some ErrReadingArchive \<and>
   result (unpublishProcess env_up world_fresh) \<noteq> Some NoItemsInArchive"
proof -
  have "publish_parse_album world_fresh = Inl ErrReadingAlbum"
    and "unpublish_parse_archive world_fresh = Inl ErrReadingArchive"
    by (simp_all add: publish_parse_album_def unpublish_parse_archive_def world_fresh_def)
  then have "publishProcess env_up world_fresh = ([], [], Some ErrReadingAlbum)"
    and "unpublishProcess env_up world_fresh = ([], [], Some ErrReadingArchive)"
    by (simp_all add: publish_run_stopped(1) unpublish_run_stopped(1))
  moreover have "Queue world_fresh = []" and "Archive world_fresh = []"
    by (simp_all add: Queue_def Archive_def world_fresh_def)
  ultimately show ?thesis by (simp add: result_def)
qed

text \<open>
  Claim C2, amended. PUBLISH invoked when the Queue is empty fails and changes nothing:
  it calls nothing that changes state (its trace is empty), so the Queue, the Archive
  and the remote pointer are as before. The error is the validation error ``no items in
  album.json'' exactly when \<^verbatim>\<open>album.json\<close> exists and decodes to the empty sequence;
  when the Queue is empty because the file is missing, unreadable or undecodable, it is
  the read or the parse error. The same holds for UNPUBLISH, the Archive,
  \<^verbatim>\<open>archive.json\<close> and ``No items in archive.json''.
\<close>

theorem empty_collection_fails_without_change:
  "(Queue w = [] \<longrightarrow>
      result (publishProcess e w) \<in>
        {Some ErrReadingAlbum, Some ErrParsingAlbum, Some NoItemsInAlbum} \<and>
      trace (publishProcess e w) = [] \<and> final w (publishProcess e w) = w \<and>
      (result (publishProcess e w) = Some NoItemsInAlbum \<longleftrightarrow>
         (\<exists>d. album_json w = Present d \<and> Unmarshal d = Some []))) \<and>
   (Archive w = [] \<longrightarrow>
      result (unpublishProcess e w) \<in>
        {Some ErrReadingArchive, Some ErrParsingArchive, Some NoItemsInArchive} \<and>
      trace (unpublishProcess e w) = [] \<and> final w (unpublishProcess e w) = w \<and>
      (result (unpublishProcess e w) = Some NoItemsInArchive \<longleftrightarrow>
         (\<exists>d. archive_json w = Present d \<and> Unmarshal d = Some [])))"
  using publish_of_empty_queue [of w e] unpublish_of_empty_archive [of w e]
  by blast

theorem empty_collection_fails_without_change_witness:
  "Queue world_empty = [] \<and> Archive world_empty = [] \<and>
   result (publishProcess env_up world_empty) = Some NoItemsInAlbum \<and>
   trace (publishProcess env_up world_empty) = [] \<and>
   final world_empty (publishProcess env_up world_empty) = world_empty \<and>
   result (unpublishProcess env_up world_empty) = Some NoItemsInArchive \<and>
   trace (unpublishProcess env_up world_empty) = [] \<and>
   final world_empty (unpublishProcess env_up world_empty) = world_empty \<and>
   Queue world_fresh = [] \<and> Archive world_fresh = [] \<and>
   trace (publishProcess env_up world_fresh) = [] \<and>
   final world_fresh (publishProcess env_up world_fresh) = world_fresh \<and>
   result (publishProcess env_up world_fresh) \<noteq> Some NoItemsInAlbum \<and>
   trace (unpublishProcess env_up world_fresh) = [] \<and>
   final world_fresh (unpublishProcess env_up world_fresh) = world_fresh \<and>
   result (unpublishProcess env_up world_fresh) \<noteq> Some NoItemsInArchive"
proof -
  have q: "Queue world_empty = []" and a: "Archive world_empty = []"
    and q': "Queue world_fresh = []" and a': "Archive world_fresh = []"
    by (simp_all add: Queue_def Archive_def world_empty_def world_fresh_def)
  have d: "\<exists>d. album_json world_empty = Present d \<and> Unmarshal d = Some []"
    and d': "\<exists>d. archive_json world_empty = Present d \<and> Unmarshal d = Some []"
    and n: "\<not> (\<exists>d. album_json world_fresh = Present d \<and> Unmarshal d = Some [])"
    and n': "\<not> (\<exists>d. archive_json world_fresh = Present d \<and> Unmarshal d = Some [])"
    by (simp_all add: world_empty_def world_fresh_def)
  from empty_collection_fails_without_change [of world_empty env_up]
    empty_collection_fails_without_change [of world_fresh env_up]
    q a q' a' d d' n n'
  show ?thesis by blast
qed

text \<open>
  Claim C3. When the Queue file decodes to a non-empty sequence and the upload of its
  front item to the remote store fails, PUBLISH returns that error, and in every state
  of the run, the last included, \<^verbatim>\<open>album.json\<close> and \<^verbatim>\<open>archive.json\<close> are the files
  they were before the call.
\<close>

theorem failed_pointer_write_changes_no_local_state:
  assumes "album_json w = Present (Items (x # xs))"
    and "uploadToSFTP (sftp e) x (today_json w) = (t, l, Some se)"
  shows "result (publishProcess e w) = Some (ErrUploadingToSFTP se) \<and>
         (\<forall>s \<in> set (trace (publishProcess e w)).
            album_json s = album_json w \<and> archive_json s = archive_json w) \<and>
         album_json (final w (publishProcess e w)) = album_json w \<and>
         archive_json (final w (publishProcess e w)) = archive_json w"
proof -
  from assms(1) have "publish_parse_album w = Inr (x # xs)"
    by (rule publish_parse_album_Present(1))
  from publish_run_upload_failed [OF this assms(2)] show ?thesis
    by (simp add: run_defs)
qed

lemma upload_down: "uploadToSFTP sftp_down x t = (t, [], Some Connect)"
  by (simp add: uploadToSFTP_def sftp_connect_def sftp_down_def sftp_up_def)

theorem failed_pointer_write_changes_no_local_state_witness:
  "album_json world0 = Present (Items [item1, item2]) \<and>
   uploadToSFTP (sftp env_sftp_down) item1 (today_json world0) = (None, [], Some Connect) \<and>
   result (publishProcess env_sftp_down world0) = Some (ErrUploadingToSFTP Connect) \<and>
   album_json (final world0 (publishProcess env_sftp_down world0)) = Present (Items [item1, item2]) \<and>
   archive_json (final world0 (publishProcess env_sftp_down world0)) = Missing"
proof -
  have a: "album_json world0 = Present (Items (item1 # [item2]))"
    by (simp add: world0_def)
  have u: "uploadToSFTP (sftp env_sftp_down) item1 (today_json world0) = (None, [], Some Connect)"
    by (simp add: env_sftp_down_def upload_down world0_def)
  from failed_pointer_write_changes_no_local_state [OF a u] a u show ?thesis
    by (simp add: world0_def)
qed

lemma invalidate_advisory_failed:
  "snd (invalidateCache c) = Some ce \<Longrightarrow> LogWarning ce \<in> set (invalidate_advisory c)"
  by (cases "invalidateCache c") (simp add: invalidate_advisory_def)

lemma invalidate_down: "invalidateCache cdn_down = ([], Some (ApiError 503))"
  by (simp add: invalidateCache_def cdn_down_def cdn_up_def)

text \<open>
  Claim C6. Let the Queue file decode to a non-empty sequence, the upload of the front
  item succeed, the Archive file be absent or decodable, and both local writes succeed.
  If the CDN purge fails, PUBLISH still returns no error: the item has moved from the
  front of the Queue to the back of the Archive, the remote pointer holds it, and the
  purge error appears in the log as a warning only.
\<close>

theorem purge_failure_is_advisory:
  assumes "album_json w = Present (Items (x # xs))"
    and "uploadToSFTP (sftp e) x (today_json w) = (t, l, None)"
    and "archive_json w \<noteq> Unreadable"
    and "\<forall>d. archive_json w = Present d \<longrightarrow> Unmarshal d \<noteq> None"
    and "write_archive e = Written" and "write_album e = Written"
    and "snd (invalidateCache (cdn e)) = Some ce"
  shows "result (publishProcess e w) = None \<and>
         Queue (final w (publishProcess e w)) = xs \<and>
         Archive (final w (publishProcess e w)) = Archive w @ [x] \<and>
         today_json (final w (publishProcess e w)) = Some (Item x) \<and>
         LogWarning ce \<in> set (logged (publishProcess e w))"
proof -
  let ?w1 = "w\<lparr>today_json := Some (Item x)\<rparr>"
  from assms(1) have p: "publish_parse_album w = Inr (x # xs)"
    by (rule publish_parse_album_Present(1))
  from assms(3,4) have "publish_read_archive ?w1 = Inr (Archive ?w1)"
    by (intro publish_read_archive_loads) simp_all
  then have a: "publish_read_archive ?w1 = Inr (Archive w)"
    by (simp add: Archive_def)
  have r: "publishProcess e w =
      ([?w1, ?w1\<lparr>archive_json := Present (Items (Archive w @ [x]))\<rparr>,
        ?w1\<lparr>archive_json := Present (Items (Archive w @ [x])),
             album_json := Present (Items xs)\<rparr>],
       (LogPublishing # LogUploaded # invalidate_advisory (cdn e)) @ [LogSuccess], None)"
    unfolding publish_run_uploaded [OF p assms(2)] publish_commit_run [OF a]
    by (simp add: assms(5,6))
  from invalidate_advisory_failed [OF assms(7)] show ?thesis
    by (simp add: r run_defs Queue_def Archive_def)
qed

theorem purge_failure_is_advisory_witness:
  "snd (invalidateCache (cdn env_cdn_down)) = Some (ApiError 503) \<and>
   result (publishProcess env_cdn_down world0) = None \<and>
   Queue (final world0 (publishProcess env_cdn_down world0)) = [item2] \<and>
   Archive (final world0 (publishProcess env_cdn_down world0)) = [item1] \<and>
   today_json (final world0 (publishProcess env_cdn_down world0)) = Some (Item item1) \<and>
   LogWarning (ApiError 503) \<in> set (logged (publishProcess env_cdn_down world0))"
proof -
  have 1: "album_json world0 = Present (Items (item1 # [item2]))"
    by (simp add: world0_def)
  have 2: "uploadToSFTP (sftp env_cdn_down) item1 (today_json world0) =
      (Some (Item item1), [LogUploaded], None)"
    by (simp add: env_cdn_down_def env_up_def upload_up)
  have 3: "archive_json world0 \<noteq> Unreadable"
    and 4: "\<forall>d. archive_json world0 = Present d \<longrightarrow> Unmarshal d \<noteq> None"
    by (simp_all add: world0_def)
  have 5: "write_archive env_cdn_down = Written" and 6: "write_album env_cdn_down = Written"
    by (simp_all add: env_cdn_down_def env_up_def)
  have 7: "snd (invalidateCache (cdn env_cdn_down)) = Some (ApiError 503)"
    by (simp add: env_cdn_down_def invalidate_down)
  have "Archive world0 = []" by (simp add: Archive_def world0_def)
  with purge_failure_is_advisory [OF 1 2 3 4 5 6 7] 7 show ?thesis by simp
qed

lemma publish_commit_trace:
  assumes "Queue w1 = x # xs"
  shows "\<forall>s \<in> set (trace (publish_commit e w1 logs x xs)).
           (x \<in> set (Queue s) \<or> x \<in> set (Archive s)) \<and>
           (album_json s \<noteq> album_json w1 \<longrightarrow>
              archive_json s = Present (Items (Archive w1 @ [x])))"
proof (cases "publish_read_archive w1")
  case (Inl err)
  with assms show ?thesis
    by (simp add: publish_commit_failed_read trace_def)
next
  case (Inr ys)
  from publish_read_archive_Inr [OF Inr] have ys: "Archive w1 = ys" by blast
  from assms ys show ?thesis
    by (cases "write_archive e"; cases "write_album e")
       (simp_all add: publish_commit_run [OF Inr] trace_def Queue_def Archive_def)
qed

lemma publish_commit_trace_nonempty:
  "trace (publish_commit e w1 logs x xs) \<noteq> [] \<and> hd (trace (publish_commit e w1 logs x xs)) = w1"
proof (cases "publish_read_archive w1")
  case (Inl err)
  then show ?thesis
    by (simp add: publish_commit_failed_read trace_def)
next
  case (Inr ys)
  show ?thesis
    by (cases "write_archive e"; cases "write_album e")
       (simp_all add: publish_commit_run [OF Inr] trace_def)
qed

text \<open>
  Claim C10. Let the Queue file decode to a non-empty sequence with front item \<open>x\<close> and
  let the upload of \<open>x\<close> succeed. The run then passes through at least one state, and in
  every state from the return of the upload on, whatever the two writes do, \<open>x\<close> is in
  the persisted Queue or in the persisted Archive. The order of the writes is the
  reason: \<^verbatim>\<open>album.json\<close> differs from what it was only in states where
  \<^verbatim>\<open>archive.json\<close> already holds the Archive with \<open>x\<close> appended.
\<close>

theorem published_item_is_never_lost:
  assumes "album_json w = Present (Items (x # xs))"
    and "uploadToSFTP (sftp e) x (today_json w) = (t, l, None)"
  shows "trace (publishProcess e w) \<noteq> [] \<and>
         (\<forall>s \<in> set (trace (publishProcess e w)).
            (x \<in> set (Queue s) \<or> x \<in> set (Archive s)) \<and>
            (album_json s \<noteq> album_json w \<longrightarrow>
               archive_json s = Present (Items (Archive w @ [x]))))"
proof -
  let ?w1 = "w\<lparr>today_json := Some (Item x)\<rparr>"
  from assms(1) have p: "publish_parse_album w = Inr (x # xs)"
    by (rule publish_parse_album_Present(1))
  have q: "Queue ?w1 = x # xs" using assms(1) by (simp add: Queue_def)
  have "Archive ?w1 = Archive w" and "album_json ?w1 = album_json w"
    by (simp_all add: Archive_def)
  with publish_commit_trace [OF q] publish_commit_trace_nonempty [of e ?w1]
  show ?thesis
    unfolding publish_run_uploaded [OF p assms(2)] by simp
qed

theorem published_item_is_never_lost_witness:
  "trace (publishProcess env_album_readonly world0) =
     [world0\<lparr>today_json := Some (Item item1)\<rparr>,
      world0\<lparr>today_json := Some (Item item1), archive_json := Present (Items [item1])\<rparr>,
      world0\<lparr>today_json := Some (Item item1), archive_json := Present (Items [item1])\<rparr>] \<and>
   result (publishProcess env_album_readonly world0) = Some ErrWritingAlbum \<and>
   item1 \<in> set (Queue (world0\<lparr>today_json := Some (Item item1)\<rparr>)) \<and>
   item1 \<in> set (Archive (world0\<lparr>today_json := Some (Item item1),
                                    archive_json := Present (Items [item1])\<rparr>))"
proof -
  have 1: "album_json world0 = Present (Items (item1 # [item2]))"
    by (simp add: world0_def)
  have 2: "uploadToSFTP (sftp env_album_readonly) item1 (today_json world0) =
      (Some (Item item1), [LogUploaded], None)"
    by (simp add: env_album_readonly_def env_up_def upload_up)
  have p: "publish_parse_album world0 = Inr [item1, item2]"
    by (simp add: publish_parse_album_def world0_def)
  have a: "publish_read_archive (world0\<lparr>today_json := Some (Item item1)\<rparr>) = Inr []"
    by (simp add: publish_read_archive_def world0_def)
  have r: "publishProcess env_album_readonly world0 =
     ([world0\<lparr>today_json := Some (Item item1)\<rparr>,
      world0\<lparr>today_json := Some (Item item1), archive_json := Present (Items [item1])\<rparr>,
      world0\<lparr>today_json := Some (Item item1), archive_json := Present (Items [item1])\<rparr>],
      LogPublishing # LogUploaded # invalidate_advisory (cdn env_album_readonly),
      Some ErrWritingAlbum)"
    unfolding publish_run_uploaded [OF p 2] publish_commit_run [OF a]
    by (simp add: env_album_readonly_def env_up_def)
  have t: "trace (publishProcess env_album_readonly world0) =
     [world0\<lparr>today_json := Some (Item item1)\<rparr>,
      world0\<lparr>today_json := Some (Item item1), archive_json := Present (Items [item1])\<rparr>,
      world0\<lparr>today_json := Some (Item item1), archive_json := Present (Items [item1])\<rparr>]"
    and e: "result (publishProcess env_album_readonly world0) = Some ErrWritingAlbum"
    by (simp_all add: r run_defs)
  have "item1 \<in> set (Queue (world0\<lparr>today_json := Some (Item item1)\<rparr>))"
    and "item1 \<in> set (Archive (world0\<lparr>today_json := Some (Item item1),
                                    archive_json := Present (Items [item1])\<rparr>))"
    by (simp_all add: Queue_def Archive_def world0_def)
  with published_item_is_never_lost [OF 1 2] t e show ?thesis
    by (intro conjI)
qed

section \<open>UNPUBLISH\<close>

lemma unpublish_up_world1:
  "unpublishProcess env_up world1 =
    ([world1\<lparr>today_json := Some (Item item1)\<rparr>,
      world1\<lparr>today_json := Some (Item item1), archive_json := Present (Items [item1])\<rparr>,
      \<lparr>album_json = Present (Items [item2, item3]), archive_json = Present (Items [item1]),
       today_json = Some (Item item1)\<rparr>],
     [LogUnpublishing, LogUploaded, LogInvalidated, LogUpdatedToday, LogSuccess], None)"
proof -
  have p: "unpublish_parse_archive world1 = Inr [item1, item2]"
    by (simp add: unpublish_parse_archive_def world1_def)
  have q: "unpublish_read_album world1 = Inr [item3]"
    by (simp add: unpublish_read_album_def world1_def)
  have c: "invalidate_advisory (cdn env_up) = [LogInvalidated]"
    by (simp add: invalidate_advisory_def invalidateCache_def env_up_def cdn_up_def)
  have u: "unpublish_update_today env_up world1 [item1] =
      Inr (world1\<lparr>today_json := Some (Item item1)\<rparr>,
           [world1\<lparr>today_json := Some (Item item1)\<rparr>],
           [LogUnpublishing, LogUploaded, LogInvalidated, LogUpdatedToday])"
    by (simp add: unpublish_update_today_def c Let_def) (simp add: env_up_def upload_up)
  show ?thesis
    by (simp add: unpublish_run_loaded [OF p _ q] u unpublish_commit_run)
       (simp add: env_up_def world1_def)
qed

lemma unpublish_up_world_one:
  "unpublishProcess env_up world_one =
    ([world_one\<lparr>archive_json := Present (Items [])\<rparr>,
      \<lparr>album_json = Present (Items [item1, item2]), archive_json = Present (Items []),
       today_json = Some (Item item1)\<rparr>],
     [LogUnpublishing, LogSuccess], None)"
proof -
  have p: "unpublish_parse_archive world_one = Inr [item1]"
    by (simp add: unpublish_parse_archive_def world_one_def)
  have q: "unpublish_read_album world_one = Inr [item2]"
    by (simp add: unpublish_read_album_def world_one_def)
  have u: "unpublish_update_today env_up world_one [] = Inr (world_one, [], [LogUnpublishing])"
    by (simp add: unpublish_update_today_def)
  show ?thesis
    by (simp add: unpublish_run_loaded [OF p _ q] u unpublish_commit_run)
       (simp add: env_up_def world_one_def)
qed

text \<open>
  Claim C5. Whenever UNPUBLISH returns without an error, the Archive was non-empty, its
  last item has been removed from it and put in front of the Queue. If the Archive
  still has items, the remote pointer holds the serialization of its new last item; if
  the Archive has become empty, no state of the run has a different pointer from the one
  before the call: the remote file is neither deleted nor rewritten.
\<close>

theorem unpublish_moves_last_to_queue_front:
  assumes "result (unpublishProcess e w) = None"
    and "w' = final w (unpublishProcess e w)"
  shows "Archive w \<noteq> [] \<and>
         Archive w' = butlast (Archive w) \<and>
         Queue w' = last (Archive w) # Queue w \<and>
         (Archive w' \<noteq> [] \<longrightarrow> today_json w' = MarshalItem (last (Archive w'))) \<and>
         (Archive w' = [] \<longrightarrow> today_json w' = today_json w \<and>
            (\<forall>s \<in> set (trace (unpublishProcess e w)). today_json s = today_json w))"
proof -
  from unpublish_success_final [OF assms(1)] assms(2) have
    ne: "Archive w \<noteq> []" and
    f: "w' = \<lparr>album_json = Present (Items (last (Archive w) # Queue w)),
              archive_json = Present (Items (butlast (Archive w))),
              today_json = (if butlast (Archive w) = [] then today_json w
                            else Some (Item (last (butlast (Archive w)))))\<rparr>" and
    t: "butlast (Archive w) = [] \<longrightarrow>
          (\<forall>s \<in> set (trace (unpublishProcess e w)). today_json s = today_json w)"
    by simp_all
  have a: "Archive w' = butlast (Archive w)"
    and q: "Queue w' = last (Archive w) # Queue w"
    by (simp_all add: f Queue_def Archive_def)
  have p: "today_json w' = (if butlast (Archive w) = [] then today_json w
                            else Some (Item (last (butlast (Archive w)))))"
    by (simp add: f)
  from ne a q p t show ?thesis by (simp add: MarshalItem_def)
qed

theorem unpublish_moves_last_to_queue_front_witness:
  "result (unpublishProcess env_up world1) = None \<and>
   Archive world1 = [item1, item2] \<and> Queue world1 = [item3] \<and>
   Archive (final world1 (unpublishProcess env_up world1)) = [item1] \<and>
   Queue (final world1 (unpublishProcess env_up world1)) = [item2, item3] \<and>
   today_json (final world1 (unpublishProcess env_up world1)) = MarshalItem item1 \<and>
   result (unpublishProcess env_up world_one) = None \<and>
   Archive world_one = [item1] \<and> today_json world_one = Some (Item item1) \<and>
   Archive (final world_one (unpublishProcess env_up world_one)) = [] \<and>
   today_json (final world_one (unpublishProcess env_up world_one)) = Some (Item item1)"
proof -
  have r: "result (unpublishProcess env_up world1) = None"
    by (simp add: unpublish_up_world1 result_def)
  have a: "Archive world1 = [item1, item2]" and q: "Queue world1 = [item3]"
    by (simp_all add: world1_def Queue_def Archive_def)
  have r': "result (unpublishProcess env_up world_one) = None"
    by (simp add: unpublish_up_world_one result_def)
  have a': "Archive world_one = [item1]" and t': "today_json world_one = Some (Item item1)"
    by (simp_all add: world_one_def Archive_def)
  from unpublish_moves_last_to_queue_front [OF r refl]
    unpublish_moves_last_to_queue_front [OF r' refl] r a q r' a' t'
  show ?thesis by simp
qed

text \<open>
  Claim C4. If PUBLISH returns without an error and UNPUBLISH, run next on the state
  PUBLISH left, returns without an error too, then the Queue and the Archive hold the
  sequences they held before PUBLISH, in the same order; the Queue was non-empty, and
  the item is back at its front, where it was taken from.
\<close>

theorem unpublish_undoes_publish:
  assumes "result (publishProcess e w) = None"
    and "w' = final w (publishProcess e w)"
    and "result (unpublishProcess e' w') = None"
    and "w'' = final w' (unpublishProcess e' w')"
  shows "Queue w \<noteq> [] \<and> Queue w'' = Queue w \<and> Archive w'' = Archive w \<and>
         hd (Queue w'') = last (Archive w')"
proof -
  from publish_success_final [OF assms(1)] assms(2) obtain x xs where
    q: "Queue w = x # xs" and
    f: "w' = \<lparr>album_json = Present (Items xs),
           archive_json = Present (Items (Archive w @ [x])),
           today_json = Some (Item x)\<rparr>"
    by auto
  have q': "Queue w' = xs" and a': "Archive w' = Archive w @ [x]"
    by (simp_all add: f Queue_def Archive_def)
  from unpublish_success_final [OF assms(3)] assms(4) have
    "album_json w'' = Present (Items (last (Archive w') # Queue w'))"
    "archive_json w'' = Present (Items (butlast (Archive w')))"
    by simp_all
  then have "Queue w'' = last (Archive w') # Queue w'"
    and "Archive w'' = butlast (Archive w')"
    by (simp_all add: Queue_def Archive_def)
  then have "Queue w'' = x # xs" and "Archive w'' = Archive w"
    by (simp_all add: q' a')
  with q a' show ?thesis by simp
qed

theorem unpublish_undoes_publish_witness:
  "result (publishProcess env_up world0) = None \<and>
   result (unpublishProcess env_up world_one) = None \<and>
   final world0 (publishProcess env_up world0) = world_one \<and>
   Queue (final world_one (unpublishProcess env_up world_one)) = Queue world0 \<and>
   Archive (final world_one (unpublishProcess env_up world_one)) = Archive world0 \<and>
   Queue world0 = [item1, item2] \<and> Archive world0 = []"
proof -
  have 1: "result (publishProcess env_up world0) = None"
    by (simp add: publish_up_world0 result_def)
  have 2: "world_one = final world0 (publishProcess env_up world0)"
    by (simp add: publish_up_world0 run_defs world_one_def)
  have 3: "result (unpublishProcess env_up world_one) = None"
    by (simp add: unpublish_up_world_one result_def)
  have "Queue world0 = [item1, item2]" and "Archive world0 = []"
    by (simp_all add: world0_def Queue_def Archive_def)
  with unpublish_undoes_publish [OF 1 2 3 refl] 1 2 3 show ?thesis by simp
qed

section \<open>Loading the collections\<close>

lemma parse_error_iff:
  "publish_parse_album w = Inl ErrParsingAlbum \<longleftrightarrow>
     (\<exists>d. album_json w = Present d \<and> Unmarshal d = None)"
  "publish_read_archive w = Inl ErrParsingArchive \<longleftrightarrow>
     (\<exists>d. archive_json w = Present d \<and> Unmarshal d = None)"
  "unpublish_parse_archive w = Inl ErrParsingArchive \<longleftrightarrow>
     (\<exists>d. archive_json w = Present d \<and> Unmarshal d = None)"
  "unpublish_read_album w = Inl ErrParsingAlbum \<longleftrightarrow>
     (\<exists>d. album_json w = Present d \<and> Unmarshal d = None)"
  by (cases "album_json w"; cases "archive_json w";
      simp add: publish_parse_album_def publish_read_archive_def
        unpublish_parse_archive_def unpublish_read_album_def split: option.splits)+

text \<open>
  Claim C7, as stated, fails: PUBLISH loads the Queue, and UNPUBLISH the Archive, with a
  plain error check, so on a new installation, where neither file exists, each of them
  ends with a read error instead of going on with an empty sequence (which would have
  ended PUBLISH with ``no items in album.json'').
\<close>

theorem missing_file_of_consumed_collection_is_an_error:
  "publish_parse_album world_fresh = Inl ErrReadingAlbum \<and>
   result (publishProcess env_up world_fresh) = Some ErrReadingAlbum \<and>
   result (publishProcess env_up (world_fresh\<lparr>album_json := Present (Items [])\<rparr>)) =
     Some NoItemsInAlbum \<and>
   unpublish_parse_archive world_fresh = Inl ErrReadingArchive \<and>
   result (unpublishProcess env_up world_fresh) = Some ErrReadingArchive"
  by (simp add: publishProcess_def unpublishProcess_def publish_parse_album_def
      unpublish_parse_archive_def world_fresh_def result_def)

text \<open>
  Claim C7, amended. A missing file loads as the empty sequence where a process loads
  the collection it adds to: the Archive in PUBLISH and the Queue in UNPUBLISH. Where a
  process loads the collection it takes from (the Queue in PUBLISH, the Archive in
  UNPUBLISH), a missing file is a read error that ends the process before any state
  changes. In each of the four loads a parse error arises exactly when the file exists
  and its content does not decode.
\<close>

theorem missing_file_loads_empty_only_where_appended:
  "(archive_json w = Missing \<longrightarrow> publish_read_archive w = Inr []) \<and>
   (album_json w = Missing \<longrightarrow> unpublish_read_album w = Inr []) \<and>
   (album_json w = Missing \<longrightarrow>
      publish_parse_album w = Inl ErrReadingAlbum \<and>
      publishProcess e w = ([], [], Some ErrReadingAlbum)) \<and>
   (archive_json w = Missing \<longrightarrow>
      unpublish_parse_archive w = Inl ErrReadingArchive \<and>
      unpublishProcess e w = ([], [], Some ErrReadingArchive)) \<and>
   (publish_parse_album w = Inl ErrParsingAlbum \<longleftrightarrow>
      (\<exists>d. album_json w = Present d \<and> Unmarshal d = None)) \<and>
   (publish_read_archive w = Inl ErrParsingArchive \<longleftrightarrow>
      (\<exists>d. archive_json w = Present d \<and> Unmarshal d = None)) \<and>
   (unpublish_parse_archive w = Inl ErrParsingArchive \<longleftrightarrow>
      (\<exists>d. archive_json w = Present d \<and> Unmarshal d = None)) \<and>
   (unpublish_read_album w = Inl ErrParsingAlbum \<longleftrightarrow>
      (\<exists>d. album_json w = Present d \<and> Unmarshal d = None))"
proof -
  have "archive_json w = Missing \<longrightarrow> publish_read_archive w = Inr []"
    by (simp add: publish_read_archive_def)
  moreover have "album_json w = Missing \<longrightarrow> unpublish_read_album w = Inr []"
    by (simp add: unpublish_read_album_def)
  moreover have "album_json w = Missing \<longrightarrow>
      publish_parse_album w = Inl ErrReadingAlbum \<and>
      publishProcess e w = ([], [], Some ErrReadingAlbum)"
    by (simp add: publish_parse_album_def publish_run_stopped(1))
  moreover have "archive_json w = Missing \<longrightarrow>
      unpublish_parse_archive w = Inl ErrReadingArchive \<and>
      unpublishProcess e w = ([], [], Some ErrReadingArchive)"
    by (simp add: unpublish_parse_archive_def unpublish_run_stopped(1))
  ultimately show ?thesis
    using parse_error_iff [of w] by blast
qed

theorem missing_file_loads_empty_only_where_appended_witness:
  "album_json world_fresh = Missing \<and> archive_json world_fresh = Missing \<and>
   publish_read_archive world_fresh = Inr [] \<and>
   unpublish_read_album world_fresh = Inr [] \<and>
   publishProcess env_up world_fresh = ([], [], Some ErrReadingAlbum) \<and>
   unpublishProcess env_up world_fresh = ([], [], Some ErrReadingArchive)"
  using missing_file_loads_empty_only_where_appended [of world_fresh env_up]
  by (simp add: world_fresh_def)

section \<open>Uniqueness of identifiers\<close>

lemma unique_ids_files:
  "album_json s = album_json w \<Longrightarrow> archive_json s = archive_json w \<Longrightarrow>
     unique_ids s = unique_ids w"
  by (simp add: unique_ids_def Queue_def Archive_def)

lemma unique_ids_today [simp]:
  "unique_ids (w\<lparr>today_json := t\<rparr>) = unique_ids w"
  by (simp add: unique_ids_def Queue_def Archive_def)

lemma final_stopped [simp]: "final w ([], l, r) = w"
  by (simp add: final_def trace_def)

lemma final_one [simp]: "final w ([s], l, r) = s"
  by (simp add: final_def trace_def)

lemma publish_commit_preserves_unique_ids:
  assumes "unique_ids w1" and "Queue w1 = x # xs" and "\<not> torn e"
  shows "unique_ids (final w (publish_commit e w1 logs x xs))"
proof (cases "publish_read_archive w1")
  case (Inl err)
  with assms(1) show ?thesis
    by (simp add: publish_commit_failed_read)
next
  case (Inr ys)
  from publish_read_archive_Inr [OF Inr] have ys: "Archive w1 = ys" by blast
  from assms ys have d: "distinct (map ID ((x # xs) @ ys))"
    by (simp add: unique_ids_def)
  from d assms(1,3) show ?thesis
    by (cases "write_archive e"; cases "write_album e")
       (auto simp: publish_commit_run [OF Inr] final_def trace_def torn_def
          unique_ids_def Queue_def Archive_def)
qed

lemma publish_preserves_unique_ids:
  assumes "unique_ids w" and "\<not> torn e"
  shows "unique_ids (final w (publishProcess e w))"
proof -
  consider
    (stopped) err where "publishProcess e w = ([], [], Some err)"
  | (upload_failed) t l se where
      "publishProcess e w = ([w\<lparr>today_json := t\<rparr>], LogPublishing # l, Some (ErrUploadingToSFTP se))"
  | (uploaded) x xs where "publish_parse_album w = Inr (x # xs)"
      "publishProcess e w =
         publish_commit e (w\<lparr>today_json := Some (Item x)\<rparr>)
           (LogPublishing # LogUploaded # invalidate_advisory (cdn e)) x xs"
    using publish_shape [of w e] by blast
  then show ?thesis
  proof cases
    case stopped
    with assms(1) show ?thesis by simp
  next
    case upload_failed
    with assms(1) show ?thesis by simp
  next
    case uploaded
    let ?w1 = "w\<lparr>today_json := Some (Item x)\<rparr>"
    from publish_parse_album_Inr [OF uploaded(1)] have "Queue ?w1 = x # xs"
      by (auto simp: Queue_def)
    moreover from assms(1) have "unique_ids ?w1"
      by simp
    ultimately show ?thesis
      using assms(2) uploaded(2) by (simp add: publish_commit_preserves_unique_ids)
  qed
qed

lemma distinct_move_last:
  assumes "as \<noteq> []" and "distinct (map ID (qs @ as))"
  shows "distinct (map ID ((last as # qs) @ butlast as))"
    and "distinct (map ID (qs @ butlast as))"
proof -
  have "distinct (map ID (qs @ butlast as @ [last as]))"
    using assms by simp
  then show "distinct (map ID ((last as # qs) @ butlast as))"
    and "distinct (map ID (qs @ butlast as))"
    by auto
qed

lemma unpublish_preserves_unique_ids:
  assumes "unique_ids w"
  shows "unique_ids (final w (unpublishProcess e w))"
proof -
  consider
    (stopped) l err where "unpublishProcess e w = ([], l, Some err)"
  | (upload_failed) t l se where
      "unpublishProcess e w =
         ([w\<lparr>today_json := t\<rparr>], LogUnpublishing # l, Some (ErrUploadingToSFTP se))"
  | (loaded) as qs w1 tr logs where "unpublish_parse_archive w = Inr as" "as \<noteq> []"
      "unpublish_read_album w = Inr qs"
      "unpublish_update_today e w (butlast as) = Inr (w1, tr, logs)"
      "unpublishProcess e w = unpublish_commit e w1 tr logs (butlast as) (last as # qs)"
    using unpublish_shape [of w e] by blast
  then show ?thesis
  proof cases
    case stopped
    with assms show ?thesis by simp
  next
    case upload_failed
    with assms show ?thesis by simp
  next
    case loaded
    from unpublish_parse_archive_Inr [OF loaded(1)] have as: "Archive w = as" by blast
    from unpublish_read_album_Inr [OF loaded(3)] have qs: "Queue w = qs" by blast
    from unpublish_update_today_Inr [OF loaded(4)] have
      f: "album_json w1 = album_json w" "archive_json w1 = archive_json w" by simp_all
    from assms as qs have d: "distinct (map ID (qs @ as))"
      by (simp add: unique_ids_def)
    note m = distinct_move_last [OF loaded(2) d]
    have q1: "items_of (album_json w1) = qs" and a1: "items_of (archive_json w1) = as"
      using f as qs by (simp_all add: Queue_def Archive_def)
    have u1: "unique_ids w1" using assms unique_ids_files [OF f] by simp
    show ?thesis
      using m d q1 a1 u1
      by (cases "write_archive e"; cases "write_album e")
         (simp_all add: loaded(5) unpublish_commit_run final_def trace_def
            unique_ids_def Queue_def Archive_def)
  qed
qed

text \<open>
  Claim C8, as stated, fails. With \<^verbatim>\<open>album.json\<close> readable but not writable, PUBLISH
  writes the Archive with the item appended, fails to write the Queue and returns the
  error; the item is then in both files, although the identifiers were unique before.
\<close>

theorem torn_publish_duplicates_an_id:
  "unique_ids world0 \<and>
   result (publishProcess env_album_readonly world0) = Some ErrWritingAlbum \<and>
   Queue (final world0 (publishProcess env_album_readonly world0)) = [item1, item2] \<and>
   Archive (final world0 (publishProcess env_album_readonly world0)) = [item1] \<and>
   \<not> unique_ids (final world0 (publishProcess env_album_readonly world0))"
proof -
  have p: "publish_parse_album world0 = Inr [item1, item2]"
    by (simp add: publish_parse_album_def world0_def)
  have u: "uploadToSFTP (sftp env_album_readonly) item1 (today_json world0) =
      (Some (Item item1), [LogUploaded], None)"
    by (simp add: env_album_readonly_def env_up_def upload_up)
  have a: "publish_read_archive (world0\<lparr>today_json := Some (Item item1)\<rparr>) = Inr []"
    by (simp add: publish_read_archive_def world0_def)
  have r: "publishProcess env_album_readonly world0 =
     ([world0\<lparr>today_json := Some (Item item1)\<rparr>,
      world0\<lparr>today_json := Some (Item item1), archive_json := Present (Items [item1])\<rparr>,
      world0\<lparr>today_json := Some (Item item1), archive_json := Present (Items [item1])\<rparr>],
      LogPublishing # LogUploaded # invalidate_advisory (cdn env_album_readonly),
      Some ErrWritingAlbum)"
    unfolding publish_run_uploaded [OF p u] publish_commit_run [OF a]
    by (simp add: env_album_readonly_def env_up_def)
  have f: "final world0 (publishProcess env_album_readonly world0) =
      world0\<lparr>today_json := Some (Item item1), archive_json := Present (Items [item1])\<rparr>"
    by (simp add: r run_defs)
  have "unique_ids world0"
    by (simp add: unique_ids_def Queue_def Archive_def world0_def item1_def item2_def)
  moreover have "result (publishProcess env_album_readonly world0) = Some ErrWritingAlbum"
    by (simp add: r result_def)
  ultimately show ?thesis
    unfolding f by (simp add: unique_ids_def Queue_def Archive_def world0_def)
qed

text \<open>
  Claim C8, amended. In every state reached from a state with unique identifiers by
  invocations of PUBLISH and UNPUBLISH, failing ones and ones that fail between their
  two writes included, each identifier occurs at most once in the persisted Queue and
  Archive taken together, provided no PUBLISH is torn (leaves the appended item in
  \<^verbatim>\<open>archive.json\<close> while \<^verbatim>\<open>album.json\<close> keeps its old content). UNPUBLISH needs no
  proviso.
\<close>

theorem ids_stay_unique_without_torn_publish:
  assumes "unique_ids w0" and "reachable w0 w"
  shows "unique_ids w"
  using assms(2,1)
proof (induction rule: reachable.induct)
  case start
  then show ?case .
next
  case (publish w e)
  then show ?case by (simp add: publish_preserves_unique_ids)
next
  case (unpublish w e)
  then show ?case by (simp add: unpublish_preserves_unique_ids)
qed

theorem ids_stay_unique_without_torn_publish_witness:
  "unique_ids world0 \<and> \<not> torn env_up \<and> \<not> torn env_sftp_down \<and>
   reachable world0 world_one \<and> unique_ids world_one"
proof -
  have u: "unique_ids world0"
    by (simp add: unique_ids_def Queue_def Archive_def world0_def item1_def item2_def)
  have t: "\<not> torn env_up" and t': "\<not> torn env_sftp_down"
    by (simp_all add: torn_def env_up_def env_sftp_down_def)
  have 1: "final world0 (publishProcess env_up world0) = world_one"
    by (simp add: publish_up_world0 run_defs world_one_def)
  have 2: "final world_one (unpublishProcess env_up world_one) =
      \<lparr>album_json = Present (Items [item1, item2]), archive_json = Present (Items []),
       today_json = Some (Item item1)\<rparr>" (is "_ = ?w2")
    by (simp add: unpublish_up_world_one run_defs)
  have 3: "final ?w2 (publishProcess env_sftp_down ?w2) = ?w2"
  proof -
    have "publish_parse_album ?w2 = Inr [item1, item2]"
      by (simp add: publish_parse_album_def)
    moreover have "uploadToSFTP (sftp env_sftp_down) item1 (today_json ?w2) =
        (Some (Item item1), [], Some Connect)"
      by (simp add: env_sftp_down_def upload_down)
    ultimately show ?thesis
      by (simp add: publish_run_upload_failed)
  qed
  have 4: "final ?w2 (publishProcess env_up ?w2) = world_one"
  proof -
    have p: "publish_parse_album ?w2 = Inr [item1, item2]"
      by (simp add: publish_parse_album_def)
    have v: "uploadToSFTP (sftp env_up) item1 (today_json ?w2) =
        (Some (Item item1), [LogUploaded], None)"
      by (simp add: env_up_def upload_up)
    have a: "publish_read_archive (?w2\<lparr>today_json := Some (Item item1)\<rparr>) = Inr []"
      by (simp add: publish_read_archive_def)
    show ?thesis
      unfolding publish_run_uploaded [OF p v] publish_commit_run [OF a]
      by (simp add: env_up_def world_one_def run_defs)
  qed
  have "reachable world0 world0" by (rule reachable.start)
  from reachable.publish [OF this t] have "reachable world0 world_one"
    by (simp add: 1)
  from reachable.unpublish [OF this, of env_up] have "reachable world0 ?w2"
    by (simp add: 2)
  from reachable.publish [OF this t'] have "reachable world0 ?w2"
    by (simp add: 3)
  from reachable.publish [OF this t] have r: "reachable world0 world_one"
    by (simp add: 4)
  from ids_stay_unique_without_torn_publish [OF u r] u t t' r show ?thesis by simp
qed

section \<open>Content addresses\<close>

lemma hexDigit_lowercase:
  "n < 16 \<Longrightarrow> hexDigit n \<in> set ''0123456789abcdef''"
  unfolding hexDigit_def by (rule nth_mem) simp

lemma high_half_less: "unat (drop_bit 4 (b :: byte)) < 16"
proof -
  have "unat b < 2 ^ 8" using unsigned_less [of b] by simp
  then have "unat b div 2 ^ 4 < 16" by simp
  then show ?thesis unfolding unat_drop_bit_eq by (simp add: drop_bit_eq_div)
qed

lemma low_half_less: "unat (take_bit 4 (b :: byte)) < 16"
proof -
  have "take_bit 4 (unat b) < 2 ^ 4" by (rule take_bit_nat_less_exp)
  then show ?thesis by (simp add: unsigned_take_bit_eq)
qed

lemma hexByte_lowercase:
  "length (hexByte b) = 2 \<and> set (hexByte b) \<subseteq> set ''0123456789abcdef''"
  using hexDigit_lowercase [OF high_half_less [of b]] hexDigit_lowercase [OF low_half_less [of b]]
  by (simp add: hexByte_def)

lemma hexString_lowercase:
  "length (hexString bs) = 2 * length bs \<and> set (hexString bs) \<subseteq> set ''0123456789abcdef''"
proof (induction bs)
  case Nil
  show ?case by (simp add: hexString_def)
next
  case (Cons b bs)
  with hexByte_lowercase [of b] show ?case
    by (simp add: hexString_def)
qed

lemma hexString_example: "hexString [0x00, 0x1f, 0xa5, 0xff :: byte] = ''001fa5ff''"
  by (simp add: hexString_def hexByte_def hexDigit_def drop_bit_eq_div take_bit_eq_mod)


lemma uploadFileToSFTP_done:
  assumes "uploadFileToSFTP s open_ok n localData name remote = (remote', None)"
  shows "remote' = remote(''content/'' @ name \<mapsto> localData)"
  using assms
  by (auto simp: uploadFileToSFTP_def Let_def split: option.splits if_splits)

lemma uploadHandler_done:
  assumes "uploadHandler sha256 Ext u (Request ''POST'' (Some (name, fileData))) remote =
             (OkUrl url, remote')"
  shows "url = (if CDN_URL u = [] then ''https://example.com'' else CDN_URL u) @
               ''/content/'' @ filename sha256 fileData (Ext name) \<and>
         remote' = remote(''content/'' @ filename sha256 fileData (Ext name) \<mapsto> fileData)"
proof -
  let ?name = "filename sha256 fileData (Ext name)"
  obtain r uerr where
    f: "uploadFileToSFTP (file_sftp u) (open_local_ok u) (bytes_copied u) fileData ?name remote
          = (r, uerr)"
    by (cases "uploadFileToSFTP (file_sftp u) (open_local_ok u) (bytes_copied u)
          fileData ?name remote") auto
  from assms f have "uerr = None \<and> r = remote' \<and>
      url = (if CDN_URL u = [] then ''https://example.com'' else CDN_URL u) @
               ''/content/'' @ ?name"
    by (cases uerr) (simp_all add: uploadHandler_def Let_def split: if_splits)
  with f uploadFileToSFTP_done [of "file_sftp u" "open_local_ok u" "bytes_copied u" fileData ?name remote remote']
  show ?thesis by simp
qed

lemma uploadHandler_succeeds:
  assumes "mkdir_all_ok u" and "create_ok u" and "copy_ok u" and "open_local_ok u"
    and "sftp_connect (file_sftp u) = None"
    and "remote_create_ok (file_sftp u)" and "remote_write_ok (file_sftp u)"
  shows "uploadHandler sha256 Ext u (Request ''POST'' (Some (name, fileData))) remote =
    (OkUrl ((if CDN_URL u = [] then ''https://example.com'' else CDN_URL u) @
              ''/content/'' @ filename sha256 fileData (Ext name)),
     remote(''content/'' @ filename sha256 fileData (Ext name) \<mapsto> fileData))"
proof -
  have "uploadFileToSFTP (file_sftp u) (open_local_ok u) (bytes_copied u) fileData
      (filename sha256 fileData (Ext name)) remote =
      (remote(''content/'' @ filename sha256 fileData (Ext name) \<mapsto> fileData), None)"
    using assms by (simp add: uploadFileToSFTP_def Let_def)
  with assms show ?thesis
    by (simp add: uploadHandler_def Let_def)
qed

text \<open>
  The name depends on the bytes and on the extension, and on nothing else: equal bytes
  under different extensions get different names.
\<close>

lemma filename_eq_iff:
  "filename sha256 fileData ext = filename sha256 fileData ext' \<longleftrightarrow> ext = ext'"
  by (simp add: filename_def)

lemma example_Ext_jpg:
  "example_Ext ''cat.jpg'' = ''.jpg''"
  "example_Ext ''photos/copy.of.cat.jpg'' = ''.jpg''"
  "example_Ext ''cat.png'' = ''.png''"
  by (simp_all add: example_Ext_def)

lemma example_hex: "hexString (example_digest [0x68, 0x69]) = ''d102''"
  by (simp add: example_digest_def hexString_def hexByte_def hexDigit_def
      drop_bit_eq_div take_bit_eq_mod)

lemma example_filename:
  "filename example_digest [0x68, 0x69] ''.jpg'' = ''d102.jpg''"
  "filename example_digest [0x68, 0x69] ''.png'' = ''d102.png''"
  by (simp_all add: filename_def example_hex)

lemma upload_up_calls:
  "mkdir_all_ok upload_up" "create_ok upload_up" "copy_ok upload_up"
  "open_local_ok upload_up" "sftp_connect (file_sftp upload_up) = None"
  "remote_create_ok (file_sftp upload_up)" "remote_write_ok (file_sftp upload_up)"
  by (simp_all add: upload_up_def sftp_up_connects) (simp_all add: sftp_up_def)

lemma upload_up_no_url_calls:
  "mkdir_all_ok (upload_up\<lparr>CDN_URL := []\<rparr>)" "create_ok (upload_up\<lparr>CDN_URL := []\<rparr>)"
  "copy_ok (upload_up\<lparr>CDN_URL := []\<rparr>)" "open_local_ok (upload_up\<lparr>CDN_URL := []\<rparr>)"
  "sftp_connect (file_sftp (upload_up\<lparr>CDN_URL := []\<rparr>)) = None"
  "remote_create_ok (file_sftp (upload_up\<lparr>CDN_URL := []\<rparr>))"
  "remote_write_ok (file_sftp (upload_up\<lparr>CDN_URL := []\<rparr>))"
  by (simp_all add: upload_up_calls)

lemma upload_cat:
  "uploadHandler example_digest example_Ext upload_up
     (Request ''POST'' (Some (''cat.jpg'', [0x68, 0x69]))) Map.empty =
     (OkUrl ''https://cdn.example.org/content/d102.jpg'',
      [''content/d102.jpg'' \<mapsto> [0x68, 0x69]])"
  by (simp add: uploadHandler_succeeds [OF upload_up_calls] example_Ext_jpg example_filename)
     (simp add: upload_up_def)

lemma upload_cat_png:
  "uploadHandler example_digest example_Ext upload_up
     (Request ''POST'' (Some (''cat.png'', [0x68, 0x69]))) Map.empty =
     (OkUrl ''https://cdn.example.org/content/d102.png'',
      [''content/d102.png'' \<mapsto> [0x68, 0x69]])"
  by (simp add: uploadHandler_succeeds [OF upload_up_calls] example_Ext_jpg example_filename)
     (simp add: upload_up_def)

lemma upload_copy_of_cat:
  "uploadHandler example_digest example_Ext (upload_up\<lparr>CDN_URL := []\<rparr>)
     (Request ''POST'' (Some (''photos/copy.of.cat.jpg'', [0x68, 0x69])))
     [''content/old.png'' \<mapsto> []] =
     (OkUrl ''https://example.com/content/d102.jpg'',
      [''content/old.png'' \<mapsto> [], ''content/d102.jpg'' \<mapsto> [0x68, 0x69]])"
  by (simp add: uploadHandler_succeeds [OF upload_up_no_url_calls] example_Ext_jpg
      example_filename)

text \<open>
  Claim C9, as stated, fails in its second half. The extension of the uploaded file's
  name is part of the address, so the same bytes uploaded once as \<^verbatim>\<open>cat.jpg\<close> and
  once as \<^verbatim>\<open>cat.png\<close>, in the same environment, are stored under two different
  addresses. (The digest is the stand-in; by \<open>filename_eq_iff\<close> the two names differ for
  every digest function.)
\<close>

theorem same_bytes_under_another_extension_get_another_address:
  "uploadHandler example_digest example_Ext upload_up
     (Request ''POST'' (Some (''cat.jpg'', [0x68, 0x69]))) Map.empty =
     (OkUrl ''https://cdn.example.org/content/d102.jpg'',
      [''content/d102.jpg'' \<mapsto> [0x68, 0x69]]) \<and>
   uploadHandler example_digest example_Ext upload_up
     (Request ''POST'' (Some (''cat.png'', [0x68, 0x69]))) Map.empty =
     (OkUrl ''https://cdn.example.org/content/d102.png'',
      [''content/d102.png'' \<mapsto> [0x68, 0x69]]) \<and>
   filename example_digest [0x68, 0x69] (example_Ext ''cat.jpg'') \<noteq>
     filename example_digest [0x68, 0x69] (example_Ext ''cat.png'')"
proof -
  have "filename example_digest [0x68, 0x69] (example_Ext ''cat.jpg'') \<noteq>
     filename example_digest [0x68, 0x69] (example_Ext ''cat.png'')"
    by (simp add: filename_eq_iff example_Ext_jpg)
  with upload_cat upload_cat_png show ?thesis by (intro conjI)
qed

text \<open>
  Claim C9, amended. When the upload handler answers with a URL, the address under
  which it has stored the uploaded bytes in the remote content directory, which is also
  the last part of the URL, is the hexadecimal encoding of the SHA-256 digest of the
  uploaded bytes (two characters for each byte of the digest, all of them digits or
  lowercase letters \<open>a\<close> to \<open>f\<close>) followed by the extension of the uploaded file's
  name. A second upload of the same bytes under a name with the same extension, at
  another time, in another environment and on another state of the remote store, gets
  the same address.
\<close>

theorem content_address_is_hex_digest_and_extension:
  assumes "uploadHandler sha256 Ext u (Request ''POST'' (Some (name, fileData))) remote =
             (OkUrl url, remote')"
    and "uploadHandler sha256 Ext u2 (Request ''POST'' (Some (name2, fileData))) remote2 =
             (OkUrl url2, remote2')"
    and "Ext name2 = Ext name"
  shows "length (hexString (sha256 fileData)) = 2 * length (sha256 fileData) \<and>
         set (hexString (sha256 fileData)) \<subseteq> set ''0123456789abcdef'' \<and>
         url = (if CDN_URL u = [] then ''https://example.com'' else CDN_URL u) @
               ''/content/'' @ hexString (sha256 fileData) @ Ext name \<and>
         remote' (''content/'' @ hexString (sha256 fileData) @ Ext name) = Some fileData \<and>
         url2 = (if CDN_URL u2 = [] then ''https://example.com'' else CDN_URL u2) @
               ''/content/'' @ hexString (sha256 fileData) @ Ext name \<and>
         remote2' (''content/'' @ hexString (sha256 fileData) @ Ext name) = Some fileData"
  using uploadHandler_done [OF assms(1)] uploadHandler_done [OF assms(2)] assms(3)
    hexString_lowercase [of "sha256 fileData"]
  by (simp add: filename_def)

theorem content_address_is_hex_digest_and_extension_witness:
  "uploadHandler example_digest example_Ext upload_up
     (Request ''POST'' (Some (''cat.jpg'', [0x68, 0x69]))) Map.empty =
     (OkUrl ''https://cdn.example.org/content/d102.jpg'',
      [''content/d102.jpg'' \<mapsto> [0x68, 0x69]]) \<and>
   uploadHandler example_digest example_Ext (upload_up\<lparr>CDN_URL := []\<rparr>)
     (Request ''POST'' (Some (''photos/copy.of.cat.jpg'', [0x68, 0x69])))
     [''content/old.png'' \<mapsto> []] =
     (OkUrl ''https://example.com/content/d102.jpg'',
      [''content/old.png'' \<mapsto> [], ''content/d102.jpg'' \<mapsto> [0x68, 0x69]]) \<and>
   example_Ext ''photos/copy.of.cat.jpg'' = example_Ext ''cat.jpg'' \<and>
   hexString (example_digest [0x68, 0x69]) @ example_Ext ''cat.jpg'' = ''d102.jpg'' \<and>
   length (hexString (example_digest [0x68, 0x69])) =
     2 * length (example_digest [0x68, 0x69])"
proof -
  have e: "example_Ext ''photos/copy.of.cat.jpg'' = example_Ext ''cat.jpg''"
    by (simp add: example_Ext_jpg)
  from content_address_is_hex_digest_and_extension [OF upload_cat upload_copy_of_cat e]
  have l: "length (hexString (example_digest [0x68, 0x69])) =
      2 * length (example_digest [0x68, 0x69])"
    by (rule conjunct1)
  have "hexString (example_digest [0x68, 0x69]) @ example_Ext ''cat.jpg'' = ''d102.jpg''"
    by (simp add: example_hex example_Ext_jpg)
  with upload_cat upload_copy_of_cat e l show ?thesis by (intro conjI)
qed

end
